theory Spec2Isabelle
  imports Main
begin

section \<open>Durations\<close>

text \<open>
  Go's \<open>time.Duration\<close> is a count of nanoseconds in a signed 64-bit integer. The
  durations of this development stay far below \<open>2 ^ 63\<close>, so they are integers.
\<close>

type_synonym Duration = int

definition Second :: Duration where
  "Second = 1000000000"

definition Hour :: Duration where
  "Hour = 3600 * Second"

section \<open>The retry delay of \<open>retryConnection\<close>\<close>

text \<open>
  The head of the loop body of \<open>retryConnection\<close>:
  \<^verbatim>\<open>
  const maxRetryInterval = time.Hour
  currentDelay := maxRetryInterval
  if retryAttempt == 0 {
      currentDelay = 0
  } else if retryAttempt < 8 {
      currentDelay = time.Duration(15*math.Pow(2, float64(retryAttempt))) * time.Second
  }
  \<close>
  \<open>retryAttempt\<close> starts at 0 and is only ever incremented, so it is a natural number.
  For \<open>1 \<le> retryAttempt < 8\<close> the float \<open>15 * 2 ^ retryAttempt\<close> is an integer of at
  most 1920, which the conversion to \<open>time.Duration\<close> keeps as it is.
\<close>

definition maxRetryInterval :: Duration where
  "maxRetryInterval = Hour"

definition currentDelay :: "nat \<Rightarrow> Duration" where
  "currentDelay retryAttempt =
     (if retryAttempt = 0 then 0
      else if retryAttempt < 8 then (15 * 2 ^ retryAttempt) * Second
      else maxRetryInterval)"

section \<open>Strings\<close>

text \<open>
  A Go string is a sequence of bytes; it is a \<open>string\<close> here, one \<open>char\<close> per byte.
  The functions of package \<open>strings\<close> and \<open>path\<close> that the plugin calls are written
  out for the byte strings that host names, header names and paths are. Case is
  folded on the letters A to Z: Go folds letters outside ASCII by the Unicode tables
  as well, always rune by rune.
\<close>

definition isUpper :: "char \<Rightarrow> bool" where
  "isUpper c = (65 \<le> (of_char c :: nat) \<and> (of_char c :: nat) \<le> 90)"

definition toLowerByte :: "char \<Rightarrow> char" where
  "toLowerByte c = (if isUpper c then char_of ((of_char c :: nat) + 32) else c)"

definition ToLower :: "string \<Rightarrow> string" where
  "ToLower s = map toLowerByte s"

text \<open>
  \<open>strings.EqualFold\<close> walks both strings in step and returns false as soon as two
  characters differ by more than their case, or as soon as one string ends before the
  other.
\<close>

fun EqualFold :: "string \<Rightarrow> string \<Rightarrow> bool" where
  "EqualFold [] [] = True"
| "EqualFold (sr # s) (tr # t) = ((sr = tr \<or> toLowerByte sr = toLowerByte tr) \<and> EqualFold s t)"
| "EqualFold _ _ = False"

fun HasPrefix :: "string \<Rightarrow> string \<Rightarrow> bool" where
  "HasPrefix s [] = True"
| "HasPrefix [] (p # ps) = False"
| "HasPrefix (c # cs) (p # ps) = (c = p \<and> HasPrefix cs ps)"

text \<open>\<open>strings.Contains s substr\<close>: \<open>substr\<close> occurs somewhere within \<open>s\<close>.\<close>

fun Contains :: "string \<Rightarrow> string \<Rightarrow> bool" where
  "Contains [] substr = (substr = [])"
| "Contains (c # cs) substr = (HasPrefix (c # cs) substr \<or> Contains cs substr)"

text \<open>
  \<open>strings.Split s sep\<close> for a separator of one byte: the pieces between the
  separators, at least one piece.
\<close>

fun Split :: "string \<Rightarrow> char \<Rightarrow> string list" where
  "Split [] sep = [[]]"
| "Split (c # cs) sep =
     (if c = sep then [] # Split cs sep
      else (case Split cs sep of
              [] \<Rightarrow> [[c]]
            | piece # pieces \<Rightarrow> (c # piece) # pieces))"

definition HasSuffix :: "string \<Rightarrow> string \<Rightarrow> bool" where
  "HasSuffix s suffix = HasPrefix (rev s) (rev suffix)"

definition TrimSuffix :: "string \<Rightarrow> string \<Rightarrow> string" where
  "TrimSuffix s suffix =
     (if HasSuffix s suffix then take (length s - length suffix) s else s)"

text \<open>
  \<open>path.Ext\<close> scans backwards from the end of the path to the last slash and returns
  the suffix that starts at the first dot it meets, the empty string when there is none.
  \<open>extRev\<close> is that scan on the reversed path, with the characters already passed.
\<close>

fun extRev :: "string \<Rightarrow> string \<Rightarrow> string" where
  "extRev [] passed = []"
| "extRev (c # cs) passed =
     (if c = CHR ''/'' then []
      else if c = CHR ''.'' then c # passed
      else extRev cs (c # passed))"

definition Ext :: "string \<Rightarrow> string" where
  "Ext path = extRev (rev path) []"

section \<open>What the standard library provides\<close>

text \<open>
  Parsing of addresses, prefixes and regular expressions is done by Go's packages
  \<open>net/netip\<close>, \<open>regexp\<close> and \<open>net\<close>, which are not part of the plugin. Their functions
  are a parameter of the model: \<open>None\<close> is a returned error.
\<close>

record ('addr, 'prefix, 'regexp) stdlib =
  ParseAddr :: "string \<Rightarrow> 'addr option"
  ParsePrefix :: "string \<Rightarrow> 'prefix option"
  IsValid :: "'prefix \<Rightarrow> bool"
  PrefixContains :: "'prefix \<Rightarrow> 'addr \<Rightarrow> bool"
  Compile :: "string \<Rightarrow> 'regexp option"
  MatchString :: "'regexp \<Rightarrow> string \<Rightarrow> bool"
  SplitHostPort :: "string \<Rightarrow> (string \<times> string) option"

section \<open>Requests, events and the plugin\<close>

text \<open>
  What the plugin reads of an \<open>http.Request\<close>: \<open>HeaderGet\<close> is \<open>req.Header.Get\<close>, which
  gives the empty string for a header that is absent; \<open>URL_String\<close> is \<open>req.URL.String()\<close>
  and \<open>URL_Path\<close> is \<open>req.URL.Path\<close>.
\<close>

record Request =
  Host :: string
  HeaderGet :: "string \<Rightarrow> string"
  RemoteAddr :: string
  URL_String :: string
  URL_Path :: string

definition Referer :: "Request \<Rightarrow> string" where
  "Referer req = HeaderGet req ''Referer''"

definition UserAgentOf :: "Request \<Rightarrow> string" where
  "UserAgentOf req = HeaderGet req ''User-Agent''"

datatype any = StringVal string | IntVal int

record UmamiEvent =
  Website :: string
  Hostname :: string
  Language :: string
  Referrer :: string
  Url :: string
  Ip :: string
  UserAgent :: string
  Timestamp :: int
  Data :: "(string \<rightharpoonup> any) option"

record SendBody =
  Payload :: UmamiEvent
  Type :: string

text \<open>A website as the collector's API describes it (\<open>CreatedAt\<close> is never read).\<close>

record Website =
  ID :: string
  Name :: string
  TeamId :: string
  Domain :: string

text \<open>
  The channel \<open>h.queue\<close>, made by \<open>make(chan *UmamiEvent, config.QueueSize)\<close>: the events
  that wait in its buffer, the capacity of the buffer, and whether the worker is blocked
  in its \<open>select\<close> with nothing to receive. A blocked receiver is handed the next event
  that is sent, past the buffer; \<open>handed\<close> lists the events received this way.
\<close>

record 'a chan =
  buffered :: "'a list"
  capacity :: nat
  receiverWaiting :: bool
  handed :: "'a list"

text \<open>
  The fields of \<open>UmamiFeeder\<close> that the functions below read or write. \<open>websites\<close> is
  the map that \<open>CreateConfig\<close> makes and the configuration fills. \<open>captureHeaders\<close>
  is a Go map that \<open>submitToFeed\<close> iterates over: it is the list of its entries in the
  order of that iteration. Three more fields record what the plugin has sent out, oldest
  first: \<open>errors\<close> holds the messages that \<open>h.error\<close> has printed through \<open>logHandler\<close>
  (the output of \<open>h.debugf\<close>, printed only in debug mode, is left out), \<open>createCalls\<close> the
  domains of the calls to \<open>createWebsite\<close>, and \<open>flushes\<close> the batches passed to
  \<open>reportEventsToUmami\<close>.
\<close>

record ('prefix, 'regexp) UmamiFeeder =
  isEnabled :: bool
  queue :: "UmamiEvent chan"
  batchSize :: int
  batchMaxWait :: Duration
  umamiHost :: string
  umamiToken :: string
  umamiTeamId :: string
  websites :: "string \<rightharpoonup> string"
  createNewWebsites :: bool
  trackErrors :: bool
  trackAllResources :: bool
  trackExtensions :: "string list"
  ignoreHosts :: "string list"
  ignoreUserAgents :: "string list"
  ignoreRegexps :: "'regexp list"
  ignorePrefixes :: "'prefix list"
  headerIp :: string
  captureHeaders :: "(string \<times> string) list"
  errors :: "string list"
  createCalls :: "string list"
  flushes :: "SendBody list list"

definition error :: "('p, 'r) UmamiFeeder \<Rightarrow> string \<Rightarrow> ('p, 'r) UmamiFeeder" where
  "error h message = h\<lparr>errors := errors h @ [message]\<rparr>"

section \<open>Helpers on requests\<close>

text \<open>
  \<open>parseDomainFromHost\<close>: the part of the host before the first colon, without one
  trailing dot, in lower case.
\<close>

definition parseDomainFromHost :: "string \<Rightarrow> string" where
  "parseDomainFromHost host =
     (let host1 = (if Contains host '':'' then hd (Split host CHR '':'') else host);
          host2 = TrimSuffix host1 ''.''
      in ToLower host2)"

section \<open>The matcher\<close>

text \<open>
  \<open>shouldTrackRequest\<close> runs four checks in order, each a loop that returns false at
  the first entry that matches.
\<close>

definition requestIp :: "('p, 'r) UmamiFeeder \<Rightarrow> Request \<Rightarrow> string" where
  "requestIp h req =
     (if HeaderGet req (headerIp h) = [] then RemoteAddr req else HeaderGet req (headerIp h))"

definition shouldTrackRequest ::
  "('a, 'p, 'r) stdlib \<Rightarrow> ('p, 'r) UmamiFeeder \<Rightarrow> Request \<Rightarrow> bool" where
  "shouldTrackRequest lib h req =
     (if ignoreHosts h \<noteq> [] \<and>
         list_ex (\<lambda>disabledHost. EqualFold (Host req) disabledHost) (ignoreHosts h)
      then False
      else if ignorePrefixes h \<noteq> [] \<and>
        (case ParseAddr lib (requestIp h req) of
           None \<Rightarrow> True
         | Some ip \<Rightarrow> list_ex (\<lambda>prefix. PrefixContains lib prefix ip) (ignorePrefixes h))
      then False
      else if ignoreUserAgents h \<noteq> [] \<and>
        list_ex (\<lambda>disabledUserAgent. Contains (UserAgentOf req) disabledUserAgent)
          (ignoreUserAgents h)
      then False
      else if ignoreRegexps h \<noteq> [] \<and>
        list_ex (\<lambda>r. MatchString lib r (URL_String req)) (ignoreRegexps h)
      then False
      else True)"

definition contentExtensions :: "string list" where
  "contentExtensions =
     ['''', ''.htm'', ''.html'', ''.xhtml'', ''.jsf'', ''.md'', ''.php'', ''.rss'', ''.rtf'',
      ''.txt'', ''.xml'', ''.pdf'']"

definition shouldTrackResource :: "('p, 'r) UmamiFeeder \<Rightarrow> string \<Rightarrow> bool" where
  "shouldTrackResource h url =
     (if trackAllResources h then True
      else let pathExt = Ext url
           in if trackExtensions h \<noteq> [] then pathExt \<in> set (trackExtensions h)
              else pathExt \<in> set contentExtensions)"

definition shouldTrack ::
  "('a, 'p, 'r) stdlib \<Rightarrow> ('p, 'r) UmamiFeeder \<Rightarrow> Request \<Rightarrow> bool" where
  "shouldTrack lib h req =
     (if \<not> shouldTrackRequest lib h req then False
      else if \<not> shouldTrackResource h (URL_Path req) then False
      else if createNewWebsites h then True
      else (case websites h (parseDomainFromHost (Host req)) of
              Some websiteId \<Rightarrow> True
            | None \<Rightarrow> False))"

definition shouldTrackStatus :: "('p, 'r) UmamiFeeder \<Rightarrow> int \<Rightarrow> bool" where
  "shouldTrackStatus h statusCode = (if statusCode \<ge> 400 then trackErrors h else True)"

section \<open>Configuration and construction\<close>

text \<open>
  The fields of \<open>Config\<close> that \<open>New\<close>, \<open>connect\<close> and \<open>verifyConfig\<close> read.
\<close>

record Config =
  Enabled :: bool
  Disabled :: bool
  QueueSize :: int
  BatchSize :: int
  BatchMaxWait :: Duration
  UmamiHost :: string
  UmamiToken :: string
  UmamiUsername :: string
  UmamiPassword :: string
  UmamiTeamId :: string
  Websites :: "string \<rightharpoonup> string"
  CreateNewWebsites :: bool
  TrackErrors :: bool
  TrackAllResources :: bool
  TrackExtensions :: "string list"
  IgnoreUserAgents :: "string list"
  IgnoreURLs :: "string list"
  IgnoreHosts :: "string list"
  IgnoreIPs :: "string list"
  HeaderIp :: string
  CaptureHeaders :: "(string \<times> string) list"

definition CreateConfig :: Config where
  "CreateConfig =
     \<lparr>Enabled = True, Disabled = False, QueueSize = 1000, BatchSize = 20,
      BatchMaxWait = 5 * Second,
      UmamiHost = [], UmamiToken = [], UmamiUsername = [], UmamiPassword = [],
      UmamiTeamId = [],
      Websites = Map.empty, CreateNewWebsites = False,
      TrackErrors = False, TrackAllResources = False, TrackExtensions = [],
      IgnoreUserAgents = [], IgnoreURLs = [], IgnoreHosts = [], IgnoreIPs = [],
      HeaderIp = ''X-Real-IP'', CaptureHeaders = []\<rparr>"

text \<open>
  \<open>New\<close> builds the plugin from the configuration. A plugin that is enabled is first
  switched off and \<open>retryConnection\<close> is started in a goroutine of its own: the second
  component says whether it was started. \<open>make\<close> panics on a negative queue size, which
  is the result \<open>None\<close>.
\<close>

definition New :: "Config \<Rightarrow> (('p, 'r) UmamiFeeder \<times> bool) option" where
  "New config =
     (if QueueSize config < 0 then None
      else
        let h = \<lparr>isEnabled = Enabled config \<and> \<not> Disabled config,
                 queue = \<lparr>buffered = [], capacity = nat (QueueSize config),
                          receiverWaiting = False, handed = []\<rparr>,
                 batchSize = BatchSize config,
                 batchMaxWait = BatchMaxWait config,
                 umamiHost = UmamiHost config,
                 umamiToken = UmamiToken config,
                 umamiTeamId = UmamiTeamId config,
                 websites = Websites config,
                 createNewWebsites = CreateNewWebsites config,
                 trackErrors = TrackErrors config,
                 trackAllResources = TrackAllResources config,
                 trackExtensions = TrackExtensions config,
                 ignoreHosts = IgnoreHosts config,
                 ignoreUserAgents = IgnoreUserAgents config,
                 ignoreRegexps = [],
                 ignorePrefixes = [],
                 headerIp = HeaderIp config,
                 captureHeaders = CaptureHeaders config,
                 errors = [], createCalls = [], flushes = []\<rparr>
        in if isEnabled h then Some (h\<lparr>isEnabled := False\<rparr>, True) else Some (h, False))"

section \<open>Site resolution\<close>

text \<open>
  \<open>createWebsite\<close> posts to the collector and returns its answer or an error. The
  collector is a parameter: \<open>remote n domain\<close> is what the call for \<open>domain\<close> returns
  when \<open>n\<close> calls to \<open>createWebsite\<close> have been made before it, \<open>Inl\<close> with the text of
  the error or \<open>Inr\<close> with the website.
\<close>

type_synonym collector = "nat \<Rightarrow> string \<Rightarrow> string + Website"

text \<open>
  \<open>getWebsiteId\<close> run by one caller from start to end. The lookup under the read lock
  and the second lookup under the write lock then see the same map.
\<close>

definition getWebsiteId ::
  "collector \<Rightarrow> ('p, 'r) UmamiFeeder \<Rightarrow> string \<Rightarrow> string \<times> ('p, 'r) UmamiFeeder" where
  "getWebsiteId remote h hostname =
     (case websites h hostname of
        Some websiteId \<Rightarrow> (websiteId, h)
      | None \<Rightarrow>
          (case websites h hostname of
             Some websiteId \<Rightarrow> (websiteId, h)
           | None \<Rightarrow>
               let h1 = h\<lparr>createCalls := createCalls h @ [hostname]\<rparr>
               in (case remote (length (createCalls h)) hostname of
                     Inl err \<Rightarrow> ([], error h1 (''failed to create website: '' @ err))
                   | Inr website \<Rightarrow>
                       (ID website,
                        h1\<lparr>websites := (websites h1)(Domain website \<mapsto> ID website)\<rparr>))))"

section \<open>Building and submitting an event\<close>

definition isSpace :: "char \<Rightarrow> bool" where
  "isSpace c = (c \<in> set [CHR '' '', CHR 0x09, CHR 0x0A, CHR 0x0B, CHR 0x0C, CHR 0x0D])"

definition TrimSpace :: "string \<Rightarrow> string" where
  "TrimSpace s = rev (dropWhile isSpace (rev (dropWhile isSpace s)))"

text \<open>
  \<open>parseAcceptLanguage\<close> returns the first group of the first match of
  \<^verbatim>\<open>([a-zA-Z\-]+)(?:;q=\d\.\d)?(?:,\s)?\<close>: the first run of letters and hyphens in the
  header, as long as it goes, and the empty string when there is none.
\<close>

definition isLanguageChar :: "char \<Rightarrow> bool" where
  "isLanguageChar c =
     (isUpper c \<or> (97 \<le> (of_char c :: nat) \<and> (of_char c :: nat) \<le> 122) \<or> c = CHR ''-'')"

definition parseAcceptLanguage :: "string \<Rightarrow> string" where
  "parseAcceptLanguage acceptLanguage =
     takeWhile isLanguageChar (dropWhile (\<lambda>c. \<not> isLanguageChar c) acceptLanguage)"

definition extractRemoteIP :: "('a, 'p, 'r) stdlib \<Rightarrow> Request \<Rightarrow> string" where
  "extractRemoteIP lib req =
     (if HeaderGet req ''Cf-Connecting-Ip'' \<noteq> [] then HeaderGet req ''Cf-Connecting-Ip''
      else if HeaderGet req ''X-Vercel-Ip'' \<noteq> [] then HeaderGet req ''X-Vercel-Ip''
      else if HeaderGet req ''X-Forwarded-For'' \<noteq> []
        then TrimSpace (hd (Split (HeaderGet req ''X-Forwarded-For'') CHR '',''))
      else if HeaderGet req ''X-Real-IP'' \<noteq> [] then HeaderGet req ''X-Real-IP''
      else if RemoteAddr req \<noteq> []
        then (case SplitHostPort lib (RemoteAddr req) of
                Some (ip, port) \<Rightarrow> ip
              | None \<Rightarrow> RemoteAddr req)
      else [])"

text \<open>
  A send in a \<open>select\<close> with a \<open>default\<close> case never waits. It succeeds when a receiver
  is blocked on the channel, which then takes the value, or when the buffer has room;
  otherwise the \<open>default\<close> case runs, which is the result \<open>False\<close>.
\<close>

definition trySend :: "'a chan \<Rightarrow> 'a \<Rightarrow> 'a chan \<times> bool" where
  "trySend c x =
     (if receiverWaiting c then (c\<lparr>receiverWaiting := False, handed := handed c @ [x]\<rparr>, True)
      else if length (buffered c) < capacity c then (c\<lparr>buffered := buffered c @ [x]\<rparr>, True)
      else (c, False))"

text \<open>
  The receive of the worker's \<open>select\<close> when neither the context nor the timer is ready:
  the oldest buffered event, or the worker blocks on the channel.
\<close>

definition receive :: "'a chan \<Rightarrow> 'a chan \<times> 'a option" where
  "receive c =
     (case buffered c of
        [] \<Rightarrow> (c\<lparr>receiverWaiting := True\<rparr>, None)
      | x # xs \<Rightarrow> (c\<lparr>buffered := xs\<rparr>, Some x))"

definition captureHeader :: "Request \<Rightarrow> string \<times> string \<Rightarrow> UmamiEvent \<Rightarrow> UmamiEvent" where
  "captureHeader req entry event =
     (case entry of (headerName, dataKey) \<Rightarrow>
        if HeaderGet req headerName \<noteq> []
        then event\<lparr>Data := Some ((the (Data event))(dataKey \<mapsto> StringVal (HeaderGet req headerName)))\<rparr>
        else event)"

text \<open>
  \<open>submitToFeed\<close>, with the clock reading \<open>now\<close> of \<open>time.Now().Unix()\<close>. The map \<open>Data\<close> is
  written only where it has been made: \<open>hasData\<close> holds when there is a header to capture
  or an error status to store.
\<close>

definition submitToFeed ::
  "('a, 'p, 'r) stdlib \<Rightarrow> collector \<Rightarrow> int \<Rightarrow> ('p, 'r) UmamiFeeder \<Rightarrow> Request \<Rightarrow> int
   \<Rightarrow> ('p, 'r) UmamiFeeder" where
  "submitToFeed lib remote now h req statusCode =
     (let hostname = parseDomainFromHost (Host req);
          (websiteId, h1) = getWebsiteId remote h hostname
      in if websiteId = []
         then error h1 (''tracking skipped, websiteId is unknown: '' @ hostname)
         else
           let event = \<lparr>Website = websiteId,
                        Hostname = hostname,
                        Language = parseAcceptLanguage (HeaderGet req ''Accept-Language''),
                        Referrer = Referer req,
                        Url = URL_String req,
                        Ip = extractRemoteIP lib req,
                        UserAgent = HeaderGet req ''User-Agent'',
                        Timestamp = now,
                        Data = None\<rparr>;
               hasData = (statusCode \<ge> 400 \<or> captureHeaders h1 \<noteq> []);
               event1 = (if hasData then event\<lparr>Data := Some Map.empty\<rparr> else event);
               event2 = fold (captureHeader req) (captureHeaders h1) event1;
               event3 = (if statusCode \<ge> 400
                         then event2\<lparr>Data := Some ((the (Data event2))(''status_code'' \<mapsto> IntVal statusCode))\<rparr>
                         else event2)
           in (case trySend (queue h1) event3 of
                 (q, True) \<Rightarrow> h1\<lparr>queue := q\<rparr>
               | (q, False) \<Rightarrow> error h1 ''failed to submit event: queue full''))"

section \<open>The dispatch worker\<close>

text \<open>
  The worker runs against an environment that the model takes as a list of turns, one
  for each pass through the loop of \<open>umamiEventFeeder\<close>: the case that the \<open>select\<close>
  takes and the time at which it takes it, what becomes of the call to the collector if
  the pass makes one, and how long that call lasts. Times are in nanoseconds.
\<close>

type_synonym Time = int

datatype selected = CtxDone | QueueRecv UmamiEvent | TimeoutC

datatype sendOutcome = Sent | SendError string | SendPanic string

record turn =
  at :: Time
  chosen :: selected
  send :: sendOutcome
  took :: Duration

text \<open>
  \<open>reportEventsToUmami\<close> posts the batch. An error of \<open>sendRequest\<close> is logged. A fault
  inside the call is a panic, which the function does not catch: it is the second
  component of the result.
\<close>

definition reportEventsToUmami ::
  "('p, 'r) UmamiFeeder \<Rightarrow> SendBody list \<Rightarrow> sendOutcome \<Rightarrow> ('p, 'r) UmamiFeeder \<times> string option" where
  "reportEventsToUmami h events outcome =
     (let h1 = h\<lparr>flushes := flushes h @ [events]\<rparr>
      in case outcome of
           Sent \<Rightarrow> (h1, None)
         | SendError err \<Rightarrow> (error h1 (''failed to send tracking: '' @ err), None)
         | SendPanic panicVal \<Rightarrow> (h1, Some panicVal))"

text \<open>
  The local state of the loop: the batch, and the time at which the timer \<open>timeout\<close>
  fires, which \<open>Reset\<close> moves. Two more components are not variables of the program:
  \<open>oldest\<close> notes when the oldest event of the batch was received, and \<open>clock\<close> when the
  last pass ended.
\<close>

record worker =
  batch :: "SendBody list"
  deadline :: Time
  oldest :: "Time option"
  clock :: Time

datatype step = Continue worker | Return | Panic string

definition afterFlush :: "('p, 'r) UmamiFeeder \<Rightarrow> turn \<Rightarrow> worker" where
  "afterFlush h t =
     \<lparr>batch = [], deadline = at t + took t + batchMaxWait h, oldest = None,
      clock = at t + took t\<rparr>"

text \<open>One pass through the loop: the body of the \<open>select\<close> case that was taken.\<close>

definition iteration ::
  "('p, 'r) UmamiFeeder \<Rightarrow> worker \<Rightarrow> turn \<Rightarrow> ('p, 'r) UmamiFeeder \<times> step" where
  "iteration h w t =
     (case chosen t of
        CtxDone \<Rightarrow>
          if batch w \<noteq> []
          then (case reportEventsToUmami h (batch w) (send t) of
                  (h1, None) \<Rightarrow> (h1, Return)
                | (h1, Some panicVal) \<Rightarrow> (h1, Panic panicVal))
          else (h, Return)
      | QueueRecv event \<Rightarrow>
          let batch1 = batch w @ [\<lparr>Payload = event, Type = ''event''\<rparr>]
          in if int (length batch1) \<ge> batchSize h
             then (case reportEventsToUmami h batch1 (send t) of
                     (h1, None) \<Rightarrow> (h1, Continue (afterFlush h t))
                   | (h1, Some panicVal) \<Rightarrow> (h1, Panic panicVal))
             else (h, Continue (w\<lparr>batch := batch1,
                                  oldest := (case oldest w of
                                               None \<Rightarrow> Some (at t)
                                             | Some arrival \<Rightarrow> Some arrival),
                                  clock := at t\<rparr>))
      | TimeoutC \<Rightarrow>
          if batch w \<noteq> []
          then (case reportEventsToUmami h (batch w) (send t) of
                  (h1, None) \<Rightarrow> (h1, Continue (afterFlush h t))
                | (h1, Some panicVal) \<Rightarrow> (h1, Panic panicVal))
          else (h, Continue (w\<lparr>deadline := at t + batchMaxWait h, clock := at t\<rparr>)))"

text \<open>
  How a function call ends within the turns it is given: it returns a value, a panic
  leaves it, or it still waits in the \<open>select\<close> when the turns are used up.
\<close>

datatype 'r outcome = Returned 'r | Panicked string | Blocked worker

fun feederLoop ::
  "('p, 'r) UmamiFeeder \<Rightarrow> worker \<Rightarrow> turn list
   \<Rightarrow> ('p, 'r) UmamiFeeder \<times> unit outcome \<times> turn list" where
  "feederLoop h w [] = (h, Blocked w, [])"
| "feederLoop h w (t # ts) =
     (case iteration h w t of
        (h1, Continue w1) \<Rightarrow> feederLoop h1 w1 ts
      | (h1, Return) \<Rightarrow> (h1, Returned (), ts)
      | (h1, Panic panicVal) \<Rightarrow> (h1, Panicked panicVal, ts))"

text \<open>
  \<open>umamiEventFeeder\<close>, started at time \<open>start\<close>. \<open>make\<close> panics on a negative batch size.
  The deferred function recovers from a panic and logs it; the function then returns
  the zero value of its result type \<open>error\<close>, which is \<open>nil\<close>, here \<open>None\<close>.
\<close>

definition startState :: "('p, 'r) UmamiFeeder \<Rightarrow> Time \<Rightarrow> worker" where
  "startState h start =
     \<lparr>batch = [], deadline = start + batchMaxWait h, oldest = None, clock = start\<rparr>"

definition umamiEventFeeder ::
  "('p, 'r) UmamiFeeder \<Rightarrow> Time \<Rightarrow> turn list
   \<Rightarrow> ('p, 'r) UmamiFeeder \<times> string option outcome \<times> turn list" where
  "umamiEventFeeder h start turns =
     (if batchSize h < 0
      then (error h ''panic: runtime error: makeslice: cap out of range'', Returned None, turns)
      else (case feederLoop h (startState h start) turns of
              (h1, Returned u, rest) \<Rightarrow> (h1, Returned None, rest)
            | (h1, Panicked panicVal, rest) \<Rightarrow>
                (error h1 (''panic: '' @ panicVal), Returned None, rest)
            | (h1, Blocked w, rest) \<Rightarrow> (h1, Blocked w, rest)))"

text \<open>
  The time at which a call that was given \<open>turns\<close> and left \<open>rest\<close> of them came to its
  end.
\<close>

definition endTime :: "Time \<Rightarrow> turn list \<Rightarrow> turn list \<Rightarrow> Time" where
  "endTime start turns rest =
     (case rev (take (length turns - length rest) turns) of
        [] \<Rightarrow> start
      | t # ts \<Rightarrow> at t + took t)"

text \<open>
  \<open>startWorker\<close> calls \<open>umamiEventFeeder\<close> again for as long as it returns an error, on
  the turns that the last call left, and returns once it returns \<open>nil\<close>.
\<close>

function startWorker ::
  "('p, 'r) UmamiFeeder \<Rightarrow> Time \<Rightarrow> turn list
   \<Rightarrow> ('p, 'r) UmamiFeeder \<times> unit outcome \<times> turn list" where
  "startWorker h start turns =
     (case umamiEventFeeder h start turns of
        (h1, Returned (Some err), rest) \<Rightarrow>
          startWorker (error h1 (''worker failed: '' @ err)) (endTime start turns rest) rest
      | (h1, Returned None, rest) \<Rightarrow> (h1, Returned (), rest)
      | (h1, Panicked panicVal, rest) \<Rightarrow> (h1, Panicked panicVal, rest)
      | (h1, Blocked w, rest) \<Rightarrow> (h1, Blocked w, rest))"
  by pat_completeness auto
termination
  by (relation "measure (\<lambda>(h, start, turns). length turns)")
    (auto simp: umamiEventFeeder_def split: if_splits prod.splits outcome.splits)

declare startWorker.simps [simp del]

section \<open>Connecting and verifying the configuration\<close>

text \<open>
  One pass through the loop of \<open>retryConnection\<close> as the environment decides it: whether
  the \<open>select\<close> sees the delay elapse or the context cancelled, what \<open>getToken\<close> returns
  if it is called, and what \<open>fetchWebsites\<close> returns if it is called. \<open>Inl\<close> carries the text
  of an error.
\<close>

datatype wakeup = DelayElapsed | ContextDone

record attempt =
  wake :: wakeup
  login :: "string + string"
  fetched :: "string + Website list"

definition addWebsite :: "Website \<Rightarrow> (string \<rightharpoonup> string) \<Rightarrow> (string \<rightharpoonup> string)" where
  "addWebsite website sites =
     (case sites (Domain website) of
        None \<Rightarrow> sites(Domain website \<mapsto> ID website)
      | Some known \<Rightarrow> sites)"

definition connect ::
  "('p, 'r) UmamiFeeder \<Rightarrow> Config \<Rightarrow> attempt \<Rightarrow> ('p, 'r) UmamiFeeder \<times> string option" where
  "connect h config a =
     (if umamiHost h = [] then (h, Some ''umamiHost is not set'')
      else
        (case (if UmamiUsername config \<noteq> [] \<and> UmamiPassword config \<noteq> []
               then (case login a of
                       Inl err \<Rightarrow> Inl (''failed to get token: '' @ err)
                     | Inr token \<Rightarrow>
                         if token = [] then Inl ''retrieved token is empty''
                         else Inr (h\<lparr>umamiToken := token\<rparr>))
               else Inr h) of
           Inl err \<Rightarrow> (h, Some err)
         | Inr h1 \<Rightarrow>
             if umamiToken h1 = [] \<and> websites h1 = Map.empty
             then (h1, Some ''either umamiToken or websites must be set'')
             else if umamiToken h1 = [] \<and> createNewWebsites h1
             then (h1, Some ''umamiToken is required to create new websites'')
             else if umamiToken h1 \<noteq> []
             then (case fetched a of
                     Inl err \<Rightarrow> (h1, Some (''failed to fetch websites: '' @ err))
                   | Inr sites \<Rightarrow> (h1\<lparr>websites := fold addWebsite sites (websites h1)\<rparr>, None))
             else (h1, None)))"

text \<open>
  \<open>verifyConfig\<close> parses the ignored addresses and compiles the ignored locations, one
  after the other, and returns at the first that fails; what was parsed before stays
  appended. The messages end with the text of the library's error, which is left out.
\<close>

definition parseIgnoreIP :: "('a, 'p, 'r) stdlib \<Rightarrow> string \<Rightarrow> 'p option" where
  "parseIgnoreIP lib ignoreIP =
     (case (case ParsePrefix lib ignoreIP of
              Some network \<Rightarrow> Some network
            | None \<Rightarrow> ParsePrefix lib (ignoreIP @ ''/32'')) of
        None \<Rightarrow> None
      | Some network \<Rightarrow> if IsValid lib network then Some network else None)"

fun verifyIgnoreIPs ::
  "('a, 'p, 'r) stdlib \<Rightarrow> ('p, 'r) UmamiFeeder \<Rightarrow> string list
   \<Rightarrow> ('p, 'r) UmamiFeeder \<times> string option" where
  "verifyIgnoreIPs lib h [] = (h, None)"
| "verifyIgnoreIPs lib h (ignoreIP # ignoreIPs) =
     (case parseIgnoreIP lib ignoreIP of
        None \<Rightarrow> (h, Some (''invalid ignoreIP given '' @ ignoreIP))
      | Some network \<Rightarrow>
          verifyIgnoreIPs lib (h\<lparr>ignorePrefixes := ignorePrefixes h @ [network]\<rparr>) ignoreIPs)"

fun verifyIgnoreURLs ::
  "('a, 'p, 'r) stdlib \<Rightarrow> ('p, 'r) UmamiFeeder \<Rightarrow> string list
   \<Rightarrow> ('p, 'r) UmamiFeeder \<times> string option" where
  "verifyIgnoreURLs lib h [] = (h, None)"
| "verifyIgnoreURLs lib h (location # locations) =
     (case Compile lib location of
        None \<Rightarrow> (h, Some (''failed to compile ignoreURL '' @ location))
      | Some r \<Rightarrow>
          verifyIgnoreURLs lib (h\<lparr>ignoreRegexps := ignoreRegexps h @ [r]\<rparr>) locations)"

definition verifyConfig ::
  "('a, 'p, 'r) stdlib \<Rightarrow> ('p, 'r) UmamiFeeder \<Rightarrow> Config
   \<Rightarrow> ('p, 'r) UmamiFeeder \<times> string option" where
  "verifyConfig lib h config =
     (case verifyIgnoreIPs lib h (IgnoreIPs config) of
        (h1, Some err) \<Rightarrow> (h1, Some err)
      | (h1, None) \<Rightarrow> verifyIgnoreURLs lib h1 (IgnoreURLs config))"

text \<open>
  \<open>retryConnection\<close> on the attempts that the environment allows it. The result tells
  where the goroutine is at the end: still in the loop and waiting for the next delay
  to elapse, returned with the plugin enabled and the worker started, returned with the
  plugin disabled, or returned because the context was cancelled. The third component
  lists the delays that were handed to \<open>time.After\<close>.
\<close>

datatype phase = Connecting nat | Active | Disabled | Cancelled

fun retryConnection ::
  "('a, 'p, 'r) stdlib \<Rightarrow> Config \<Rightarrow> ('p, 'r) UmamiFeeder \<Rightarrow> nat \<Rightarrow> attempt list
   \<Rightarrow> ('p, 'r) UmamiFeeder \<times> phase \<times> Duration list" where
  "retryConnection lib config h retryAttempt [] =
     (h, Connecting retryAttempt, [currentDelay retryAttempt])"
| "retryConnection lib config h retryAttempt (a # attempts) =
     (case wake a of
        ContextDone \<Rightarrow> (h, Cancelled, [currentDelay retryAttempt])
      | DelayElapsed \<Rightarrow>
          (case connect h config a of
             (h1, Some err) \<Rightarrow>
               (case retryConnection lib config
                       (error h1 (''Failed to reconnect to Umami: '' @ err))
                       (retryAttempt + 1) attempts of
                  (h2, p, delays) \<Rightarrow> (h2, p, currentDelay retryAttempt # delays))
           | (h1, None) \<Rightarrow>
               (case verifyConfig lib h1 config of
                  (h2, None) \<Rightarrow> (h2\<lparr>isEnabled := True\<rparr>, Active, [currentDelay retryAttempt])
                | (h2, Some err) \<Rightarrow>
                    ((error h2 (''Configuration error, the plugin is disabled: '' @ err))
                       \<lparr>isEnabled := False\<rparr>,
                     Disabled, [currentDelay retryAttempt]))))"

section \<open>Concurrent site resolution\<close>

text \<open>
  Several callers run \<open>getWebsiteId\<close> for the same host name at once. The mutex
  \<open>websitesMutex\<close> makes two parts of the function atomic: the lookup under the read lock,
  and everything from \<open>Lock\<close> to the deferred \<open>Unlock\<close>. A caller is before the first part,
  between the two parts after a lookup that found nothing, or has returned a value.
\<close>

datatype pc = AtStart | Missed | Done string

record ('p, 'r) resolving =
  plugin :: "('p, 'r) UmamiFeeder"
  callers :: "pc list"

text \<open>Caller \<open>i\<close> runs its next atomic part.\<close>

definition stepCaller ::
  "collector \<Rightarrow> string \<Rightarrow> nat \<Rightarrow> ('p, 'r) resolving \<Rightarrow> ('p, 'r) resolving" where
  "stepCaller remote hostname i s =
     (if length (callers s) \<le> i then s
      else
        (case callers s ! i of
           AtStart \<Rightarrow>
             (case websites (plugin s) hostname of
                Some websiteId \<Rightarrow> s\<lparr>callers := (callers s)[i := Done websiteId]\<rparr>
              | None \<Rightarrow> s\<lparr>callers := (callers s)[i := Missed]\<rparr>)
         | Missed \<Rightarrow>
             (case websites (plugin s) hostname of
                Some websiteId \<Rightarrow> s\<lparr>callers := (callers s)[i := Done websiteId]\<rparr>
              | None \<Rightarrow>
                  let h1 = (plugin s)\<lparr>createCalls := createCalls (plugin s) @ [hostname]\<rparr>
                  in (case remote (length (createCalls (plugin s))) hostname of
                        Inl err \<Rightarrow>
                          \<lparr>plugin = error h1 (''failed to create website: '' @ err),
                           callers = (callers s)[i := Done []]\<rparr>
                      | Inr website \<Rightarrow>
                          \<lparr>plugin = h1\<lparr>websites := (websites h1)(Domain website \<mapsto> ID website)\<rparr>,
                           callers = (callers s)[i := Done (ID website)]\<rparr>))
         | Done websiteId \<Rightarrow> s))"

text \<open>
  A schedule names the caller that runs next, step after step; \<open>resolveAll\<close> starts \<open>n\<close>
  callers and runs them as the schedule says.
\<close>

definition interleave ::
  "collector \<Rightarrow> string \<Rightarrow> nat list \<Rightarrow> ('p, 'r) resolving \<Rightarrow> ('p, 'r) resolving" where
  "interleave remote hostname schedule s = fold (stepCaller remote hostname) schedule s"

definition resolveAll ::
  "collector \<Rightarrow> ('p, 'r) UmamiFeeder \<Rightarrow> string \<Rightarrow> nat \<Rightarrow> nat list \<Rightarrow> ('p, 'r) resolving" where
  "resolveAll remote h hostname n schedule =
     interleave remote hostname schedule \<lparr>plugin = h, callers = replicate n AtStart\<rparr>"

text \<open>
  The identifier that the callers are to agree on, seen from the plugin \<open>h\<close> they start
  with: the one that is cached, or the one that the first call to the collector creates.
\<close>

definition expectedId :: "collector \<Rightarrow> ('p, 'r) UmamiFeeder \<Rightarrow> string \<Rightarrow> string" where
  "expectedId remote h hostname =
     (case websites h hostname of
        Some websiteId \<Rightarrow> websiteId
      | None \<Rightarrow>
          (case remote (length (createCalls h)) hostname of
             Inl err \<Rightarrow> []
           | Inr website \<Rightarrow> ID website))"

text \<open>What holds at every moment of a run that started from \<open>h\<close>.\<close>

definition agreeing ::
  "collector \<Rightarrow> ('p, 'r) UmamiFeeder \<Rightarrow> string \<Rightarrow> ('p, 'r) resolving \<Rightarrow> bool" where
  "agreeing remote h hostname s =
     ((\<forall>c \<in> set (callers s). c = AtStart \<or> c = Missed \<or> c = Done (expectedId remote h hostname))
      \<and> (websites (plugin s) hostname = None \<longrightarrow>
            createCalls (plugin s) = createCalls h \<and> websites h hostname = None)
      \<and> (\<forall>websiteId. websites (plugin s) hostname = Some websiteId \<longrightarrow>
            websiteId = expectedId remote h hostname
            \<and> (createCalls (plugin s) = createCalls h
                \<or> createCalls (plugin s) = createCalls h @ [hostname])))"

text \<open>How far a caller has come.\<close>

fun progress :: "pc \<Rightarrow> nat" where
  "progress AtStart = 0"
| "progress Missed = 1"
| "progress (Done websiteId) = 2"




section \<open>Values for worked examples\<close>

text \<open>
  A library that knows a handful of strings, with addresses as lists of octets, a
  prefix as an address and a number of bits that is a multiple of eight, and a regular
  expression as its source. Every other string is one it does not parse.
\<close>

definition exampleLib :: "(nat list, nat list \<times> nat, string) stdlib" where
  "exampleLib =
     \<lparr>ParseAddr = map_of
        [(''192.168.0.1'', [192, 168, 0, 1]), (''10.0.0.7'', [10, 0, 0, 7]),
         (''127.0.0.1'', [127, 0, 0, 1])],
      ParsePrefix = map_of
        [(''10.0.0.1/24'', ([10, 0, 0, 0], 24)), (''127.0.0.1/32'', ([127, 0, 0, 1], 32))],
      IsValid = (\<lambda>prefix. True),
      PrefixContains = (\<lambda>(net, bits) ip. take (bits div 8) ip = take (bits div 8) net),
      Compile = map_of [(''^/admin'', ''^/admin'')],
      MatchString = (\<lambda>r s. r = ''^/admin'' \<and> HasPrefix s ''/admin''),
      SplitHostPort = map_of [(''203.0.113.9:51324'', (''203.0.113.9'', ''51324''))]\<rparr>"

text \<open>
  The plugin as \<open>New\<close> leaves it for the default configuration with one static
  website and automatic creation of websites.
\<close>

definition exampleConfig :: Config where
  "exampleConfig =
     CreateConfig\<lparr>UmamiHost := ''http://umami:3000'', UmamiToken := ''token'',
       Websites := [''example.com'' \<mapsto> ''site-1''], CreateNewWebsites := True\<rparr>"

definition exampleFeeder :: "(nat list \<times> nat, string) UmamiFeeder" where
  "exampleFeeder = fst (the (New exampleConfig))"

text \<open>A request for \<open>/about\<close> that names its client in \<open>X-Real-IP\<close>.\<close>

definition exampleRequest :: "string \<Rightarrow> string \<Rightarrow> Request" where
  "exampleRequest host clientIp =
     \<lparr>Host = host,
      HeaderGet = (\<lambda>name. if name = ''X-Real-IP'' then clientIp else []),
      RemoteAddr = ''203.0.113.9:51324'',
      URL_String = ''/about'',
      URL_Path = ''/about''\<rparr>"

text \<open>The events that a channel holds or has handed to its receiver.\<close>

definition inQueue :: "'a chan \<Rightarrow> 'a set" where
  "inQueue c = set (buffered c) \<union> set (handed c)"

text \<open>
  A collector that creates a website for \<open>new.example\<close> and answers every other call
  with an error.
\<close>

definition exampleRemote :: collector where
  "exampleRemote n domain =
     (if domain = ''new.example''
      then Inr \<lparr>ID = ''site-2'', Name = domain, TeamId = [], Domain = domain\<rparr>
      else Inl ''request failed with status 500 ()'')"

text \<open>
  What holds of a channel at all times: the buffer is within its capacity, and a
  receiver blocks only on an empty buffer.
\<close>

definition chanInvariant :: "'a chan \<Rightarrow> bool" where
  "chanInvariant c =
     (length (buffered c) \<le> capacity c \<and> (receiverWaiting c \<longrightarrow> buffered c = []))"

text \<open>
  The plugin configured with \<open>queueSize: 0\<close>, once its worker has found nothing to
  receive and waits in its \<open>select\<close>.
\<close>

definition unbufferedFeeder :: "(nat list \<times> nat, string) UmamiFeeder" where
  "unbufferedFeeder =
     (let h = fst (the (New (exampleConfig\<lparr>QueueSize := 0\<rparr>)))
      in h\<lparr>queue := fst (receive (queue h))\<rparr>)"

text \<open>
  The plugin configured with \<open>queueSize: 1\<close> after one request for \<open>example.com\<close>: its
  queue is full.
\<close>

definition fullFeeder :: "(nat list \<times> nat, string) UmamiFeeder" where
  "fullFeeder =
     submitToFeed exampleLib exampleRemote 1700000000
       (fst (the (New (exampleConfig\<lparr>QueueSize := 1\<rparr>))))
       (exampleRequest ''example.com'' ''192.168.0.1'') 200"

text \<open>
  The plugin once \<open>retryConnection\<close> has enabled it, with batches of two events, and a
  page view of \<open>example.com\<close>.
\<close>

definition activeFeeder :: "(nat list \<times> nat, string) UmamiFeeder" where
  "activeFeeder = exampleFeeder\<lparr>isEnabled := True, batchSize := 2\<rparr>"

definition pageView :: "string \<Rightarrow> UmamiEvent" where
  "pageView url =
     \<lparr>Website = ''site-1'', Hostname = ''example.com'', Language = ''en'', Referrer = [],
      Url = url, Ip = ''192.168.0.1'', UserAgent = ''curl/8.5.0'', Timestamp = 1700000000,
      Data = None\<rparr>"

definition received :: "Time \<Rightarrow> string \<Rightarrow> sendOutcome \<Rightarrow> turn" where
  "received time url outcome =
     \<lparr>at = time, chosen = QueueRecv (pageView url), send = outcome, took = 0\<rparr>"

text \<open>
  Four page views, one a second. The call that sends the first batch of two runs into
  a nil pointer.
\<close>

definition faultyTurns :: "turn list" where
  "faultyTurns =
     [received (1 * Second) ''/a'' Sent,
      received (2 * Second) ''/b''
        (SendPanic ''runtime error: invalid memory address or nil pointer dereference''),
      received (3 * Second) ''/c'' Sent,
      received (4 * Second) ''/d'' Sent]"



text \<open>
  The configuration of the plugin's own test \<open>TestShouldTrackInvalidIp\<close>, whose ignored
  address is a range that no prefix describes, and two attempts to connect: the list of
  websites cannot be fetched at first and is fetched on the second attempt.
\<close>

definition invalidIpConfig :: Config where
  "invalidIpConfig = exampleConfig\<lparr>IgnoreIPs := [''127.0.0.1-127.0.0.10'']\<rparr>"

definition twoAttempts :: "attempt list" where
  "twoAttempts =
     [\<lparr>wake = DelayElapsed, login = Inl ''not called'',
       fetched = Inl ''request failed with status 502 ()''\<rparr>,
      \<lparr>wake = DelayElapsed, login = Inl ''not called'',
       fetched = Inr [\<lparr>ID = ''site-9'', Name = ''blog'', TeamId = [], Domain = ''blog.example''\<rparr>]\<rparr>,
      \<lparr>wake = DelayElapsed, login = Inl ''not called'', fetched = Inr []\<rparr>]"

definition invalidIpFeeder :: "(nat list \<times> nat, string) UmamiFeeder" where
  "invalidIpFeeder = fst (the (New invalidIpConfig))"

text \<open>
  A collector whose first answer is an error and which creates the website from the
  second call on.
\<close>

definition flakyRemote :: collector where
  "flakyRemote n domain =
     (if n = 0 then Inl ''request failed with status 503 ()''
      else Inr \<lparr>ID = ''site-2'', Name = domain, TeamId = [], Domain = domain\<rparr>)"

section \<open>Properties of the retry delay\<close>

lemma currentDelay_le_Hour: "currentDelay n \<le> Hour"
proof (cases "0 < n \<and> n < 8")
  case True
  then have "(2::int) ^ n \<le> 2 ^ 7"
    by (intro power_increasing) simp_all
  then have "15 * (2::int) ^ n \<le> 3600"
    by simp
  then have "(15 * 2 ^ n) * Second \<le> 3600 * Second"
    by (simp add: Second_def)
  then show ?thesis
    using True by (simp add: currentDelay_def Hour_def)
next
  case False
  then show ?thesis
    by (auto simp: currentDelay_def maxRetryInterval_def Hour_def Second_def)
qed

lemma currentDelay_mono: "m \<le> n \<Longrightarrow> currentDelay m \<le> currentDelay n"
proof (cases "n < 8")
  case False
  then have "currentDelay n = Hour"
    by (simp add: currentDelay_def maxRetryInterval_def)
  then show ?thesis
    by (simp add: currentDelay_le_Hour)
next
  case True
  assume le: "m \<le> n"
  have "(2::int) ^ m \<le> 2 ^ n"
    using le by (intro power_increasing) simp_all
  then show ?thesis
    using True le by (simp add: currentDelay_def Second_def)
qed

text \<open>
  Claim C5. The retry delay as a function of the attempt counter \<open>n\<close>: zero for the
  first attempt, \<open>15 * 2 ^ n\<close> seconds for \<open>1 \<le> n \<le> 7\<close> (so 30 seconds at \<open>n = 1\<close>,
  doubling with every attempt), exactly one hour from \<open>n = 8\<close> on; the delay never
  decreases with \<open>n\<close> and never exceeds one hour.
\<close>

theorem C5_retry_delay:
  "currentDelay 0 = 0
   \<and> currentDelay 1 = 30 * Second
   \<and> (\<forall>n. 1 \<le> n \<and> n \<le> 7 \<longrightarrow> currentDelay n = 15 * 2 ^ n * Second)
   \<and> (\<forall>n. 1 \<le> n \<and> n < 7 \<longrightarrow> currentDelay (Suc n) = 2 * currentDelay n)
   \<and> (\<forall>n. 8 \<le> n \<longrightarrow> currentDelay n = Hour)
   \<and> (\<forall>m n. m \<le> n \<longrightarrow> currentDelay m \<le> currentDelay n)
   \<and> (\<forall>n. currentDelay n \<le> Hour)"
proof (intro conjI allI impI)
  show "currentDelay 0 = 0"
    by (simp add: currentDelay_def)
  show "currentDelay 1 = 30 * Second"
    by (simp add: currentDelay_def)
  show "currentDelay n = 15 * 2 ^ n * Second" if "1 \<le> n \<and> n \<le> 7" for n
    using that by (simp add: currentDelay_def)
  show "currentDelay (Suc n) = 2 * currentDelay n" if "1 \<le> n \<and> n < 7" for n
    using that by (simp add: currentDelay_def)
  show "currentDelay n = Hour" if "8 \<le> n" for n
    using that by (simp add: currentDelay_def maxRetryInterval_def)
  show "currentDelay m \<le> currentDelay n" if "m \<le> n" for m n
    using that by (rule currentDelay_mono)
  show "currentDelay n \<le> Hour" for n
    by (rule currentDelay_le_Hour)
qed

theorem C5_retry_delay_witness:
  "currentDelay 3 = 120 * Second
   \<and> currentDelay 4 = 2 * currentDelay 3
   \<and> currentDelay 7 = 1920 * Second
   \<and> currentDelay 8 = 3600 * Second
   \<and> currentDelay 3 \<le> currentDelay 8"
proof -
  note c = C5_retry_delay
  have a: "currentDelay 3 = 15 * 2 ^ 3 * Second"
    using c by simp
  have b: "currentDelay (Suc 3) = 2 * currentDelay 3"
    using c by simp
  have d: "currentDelay 7 = 15 * 2 ^ 7 * Second"
    using c by simp
  have e: "currentDelay 8 = Hour"
    using c by simp
  have "\<forall>m n. m \<le> n \<longrightarrow> currentDelay m \<le> currentDelay n"
    using c by blast
  then have "(3::nat) \<le> 8 \<longrightarrow> currentDelay 3 \<le> currentDelay 8"
    by blast
  then have f: "currentDelay 3 \<le> currentDelay 8"
    by simp
  show ?thesis
    using a b d e f by (simp add: Hour_def Second_def)
qed

section \<open>Properties of the string helpers\<close>

lemma EqualFold_length: "EqualFold s t \<Longrightarrow> length s = length t"
  by (induction s t rule: EqualFold.induct) auto

lemma EqualFold_ToLower: "EqualFold s t = (ToLower s = ToLower t)"
  by (induction s t rule: EqualFold.induct) (auto simp: ToLower_def)

lemma EqualFold_port: "\<not> EqualFold (h @ CHR '':'' # port) h"
proof
  assume "EqualFold (h @ CHR '':'' # port) h"
  then have "length (h @ CHR '':'' # port) = length h"
    by (rule EqualFold_length)
  then show False
    by simp
qed

lemma Split_not_Nil: "Split s c \<noteq> []"
  by (induction s) (auto split: list.splits)

lemma hd_Split: "hd (Split s c) = takeWhile (\<lambda>x. x \<noteq> c) s"
  using Split_not_Nil by (induction s) (auto split: list.splits)

lemma Contains_single: "Contains s [c] = (c \<in> set s)"
  by (induction s) auto

lemma parseDomainFromHost_port:
  assumes "CHR '':'' \<notin> set h"
  shows "parseDomainFromHost (h @ CHR '':'' # port) = parseDomainFromHost h"
proof -
  have "takeWhile (\<lambda>x. x \<noteq> CHR '':'') (h @ CHR '':'' # port) = h"
    using assms by (auto simp: takeWhile_tail)
  then show ?thesis
    using assms by (simp add: parseDomainFromHost_def Contains_single hd_Split Let_def)
qed

section \<open>Properties of the matcher\<close>

lemma exampleFeeder_fields:
  "ignoreHosts exampleFeeder = []" "ignorePrefixes exampleFeeder = []"
  "ignoreUserAgents exampleFeeder = []" "ignoreRegexps exampleFeeder = []"
  "createNewWebsites exampleFeeder = True" "trackAllResources exampleFeeder = False"
  "trackExtensions exampleFeeder = []" "headerIp exampleFeeder = ''X-Real-IP''"
  "isEnabled exampleFeeder = False" "errors exampleFeeder = []"
  "capacity (queue exampleFeeder) = 1000" "buffered (queue exampleFeeder) = []"
  "receiverWaiting (queue exampleFeeder) = False" "handed (queue exampleFeeder) = []"
  "createCalls exampleFeeder = []" "flushes exampleFeeder = []"
  "captureHeaders exampleFeeder = []"
  by (simp_all add: exampleFeeder_def New_def exampleConfig_def CreateConfig_def)

lemma about_is_content: "shouldTrackResource exampleFeeder ''/about''"
  by (simp add: shouldTrackResource_def exampleFeeder_fields Ext_def contentExtensions_def)

lemma shouldTrackRequest_no_prefixes:
  "ignorePrefixes h = [] \<Longrightarrow>
   shouldTrackRequest (lib\<lparr>ParseAddr := parse\<rparr>) h req = shouldTrackRequest lib h req"
  by (simp add: shouldTrackRequest_def)

lemma shouldTrackRequest_hosts:
  "shouldTrackRequest lib (f\<lparr>ignoreHosts := hosts\<rparr>) req =
     (\<not> list_ex (EqualFold (Host req)) hosts
      \<and> shouldTrackRequest lib (f\<lparr>ignoreHosts := []\<rparr>) req)"
  by (cases hosts) (simp_all add: shouldTrackRequest_def requestIp_def cong: option.case_cong)

text \<open>
  Claim C9, as the code has it. The client address is parsed only when at least one
  ignore prefix is configured. Then a client-IP string, taken from the configured
  header or, when that header is empty, from the remote address of the connection,
  that does not parse makes \<open>shouldTrack\<close> return false. With no ignore prefix the string
  is never parsed and has no influence on the result.
\<close>

theorem C9_unparseable_ip_with_prefixes:
  "requestIp h req =
     (if HeaderGet req (headerIp h) = [] then RemoteAddr req else HeaderGet req (headerIp h))
   \<and> (ignorePrefixes h \<noteq> [] \<and> ParseAddr lib (requestIp h req) = None
        \<longrightarrow> \<not> shouldTrackRequest lib h req \<and> \<not> shouldTrack lib h req)
   \<and> (ignorePrefixes h = []
        \<longrightarrow> shouldTrack (lib\<lparr>ParseAddr := parse\<rparr>) h req = shouldTrack lib h req)"
proof (intro conjI impI)
  show "requestIp h req =
     (if HeaderGet req (headerIp h) = [] then RemoteAddr req else HeaderGet req (headerIp h))"
    by (simp add: requestIp_def)
next
  assume a: "ignorePrefixes h \<noteq> [] \<and> ParseAddr lib (requestIp h req) = None"
  then show r: "\<not> shouldTrackRequest lib h req"
    by (simp add: shouldTrackRequest_def)
  then show "\<not> shouldTrack lib h req"
    by (simp add: shouldTrack_def)
next
  assume "ignorePrefixes h = []"
  then show "shouldTrack (lib\<lparr>ParseAddr := parse\<rparr>) h req = shouldTrack lib h req"
    by (simp add: shouldTrack_def shouldTrackRequest_no_prefixes)
qed

theorem C9_unparseable_ip_with_prefixes_witness:
  "ignorePrefixes (exampleFeeder\<lparr>ignorePrefixes := [([10, 0, 0, 0], 24)]\<rparr>) \<noteq> []
   \<and> requestIp (exampleFeeder\<lparr>ignorePrefixes := [([10, 0, 0, 0], 24)]\<rparr>)
        (exampleRequest ''example.com'' ''not-an-ip'') = ''not-an-ip''
   \<and> ParseAddr exampleLib ''not-an-ip'' = None
   \<and> \<not> shouldTrack exampleLib (exampleFeeder\<lparr>ignorePrefixes := [([10, 0, 0, 0], 24)]\<rparr>)
        (exampleRequest ''example.com'' ''not-an-ip'')
   \<and> ignorePrefixes exampleFeeder = []
   \<and> shouldTrack (exampleLib\<lparr>ParseAddr := (\<lambda>s. Some [0, 0, 0, 0])\<rparr>) exampleFeeder
        (exampleRequest ''example.com'' ''not-an-ip'')
      = shouldTrack exampleLib exampleFeeder (exampleRequest ''example.com'' ''not-an-ip'')"
proof -
  let ?h = "exampleFeeder\<lparr>ignorePrefixes := [([10, 0, 0, 0], 24)]\<rparr>"
  let ?req = "exampleRequest ''example.com'' ''not-an-ip''"
  have ip: "requestIp ?h ?req = ''not-an-ip''"
    by (simp add: requestIp_def exampleRequest_def exampleFeeder_fields)
  have none: "ParseAddr exampleLib ''not-an-ip'' = None"
    by (simp add: exampleLib_def)
  have pre: "ignorePrefixes ?h \<noteq> [] \<and> ParseAddr exampleLib (requestIp ?h ?req) = None"
    using ip none by simp
  have "\<not> shouldTrack exampleLib ?h ?req"
    using C9_unparseable_ip_with_prefixes [of ?h ?req exampleLib] pre by blast
  moreover have "shouldTrack (exampleLib\<lparr>ParseAddr := (\<lambda>s. Some [0, 0, 0, 0])\<rparr>) exampleFeeder ?req
      = shouldTrack exampleLib exampleFeeder ?req"
    using C9_unparseable_ip_with_prefixes [of exampleFeeder ?req exampleLib]
    by (simp add: exampleFeeder_fields)
  ultimately show ?thesis
    using ip none by (simp add: exampleFeeder_fields)
qed

text \<open>
  Claim C9 as it is stated fails where no ignore prefix is configured: the request
  below names a client that is no IP address and is tracked all the same.
\<close>

theorem C9_unparseable_ip_counterexample:
  "ignorePrefixes exampleFeeder = []
   \<and> requestIp exampleFeeder (exampleRequest ''example.com'' ''not-an-ip'') = ''not-an-ip''
   \<and> ParseAddr exampleLib ''not-an-ip'' = None
   \<and> shouldTrack exampleLib exampleFeeder (exampleRequest ''example.com'' ''not-an-ip'')"
proof (intro conjI)
  show "ignorePrefixes exampleFeeder = []"
    by (simp add: exampleFeeder_fields)
  show "requestIp exampleFeeder (exampleRequest ''example.com'' ''not-an-ip'') = ''not-an-ip''"
    by (simp add: requestIp_def exampleRequest_def exampleFeeder_fields)
  show "ParseAddr exampleLib ''not-an-ip'' = None"
    by (simp add: exampleLib_def)
  have "shouldTrackRequest exampleLib exampleFeeder (exampleRequest ''example.com'' ''not-an-ip'')"
    by (simp add: shouldTrackRequest_def exampleFeeder_fields)
  then show "shouldTrack exampleLib exampleFeeder (exampleRequest ''example.com'' ''not-an-ip'')"
    using about_is_content
    by (simp add: shouldTrack_def exampleFeeder_fields exampleRequest_def)
qed

text \<open>
  Claim C10. The ignored-host check compares the raw \<open>Host\<close> of the request with each
  configured ignore host, equal up to case and nothing else: the port is not removed,
  unlike in \<open>parseDomainFromHost\<close>, which resolves \<open>h:port\<close> to the site of \<open>h\<close>. So an
  ignore entry \<open>h\<close> never matches a request whose host is \<open>h:port\<close>: with or without the
  entry, \<open>shouldTrackRequest\<close> decides the same.
\<close>

theorem C10_ignore_host_keeps_port:
  "(list_ex (\<lambda>disabledHost. ToLower (Host req) = ToLower disabledHost) (ignoreHosts f)
      \<longrightarrow> \<not> shouldTrackRequest lib f req)
   \<and> \<not> EqualFold (h @ CHR '':'' # port) h
   \<and> (Host req = h @ CHR '':'' # port \<longrightarrow>
        shouldTrackRequest lib (f\<lparr>ignoreHosts := before @ h # after\<rparr>) req
        = shouldTrackRequest lib (f\<lparr>ignoreHosts := before @ after\<rparr>) req)
   \<and> (CHR '':'' \<notin> set h \<longrightarrow>
        parseDomainFromHost (h @ CHR '':'' # port) = parseDomainFromHost h)"
proof (intro conjI impI)
  assume "list_ex (\<lambda>disabledHost. ToLower (Host req) = ToLower disabledHost) (ignoreHosts f)"
  then have "ignoreHosts f \<noteq> [] \<and> list_ex (EqualFold (Host req)) (ignoreHosts f)"
    by (auto simp: EqualFold_ToLower list_ex_iff)
  then show "\<not> shouldTrackRequest lib f req"
    by (simp add: shouldTrackRequest_def)
next
  show "\<not> EqualFold (h @ CHR '':'' # port) h"
    by (rule EqualFold_port)
next
  assume host: "Host req = h @ CHR '':'' # port"
  have "list_ex (EqualFold (Host req)) (before @ h # after)
        = list_ex (EqualFold (Host req)) (before @ after)"
    using host EqualFold_port by (simp add: list_ex_iff)
  then show "shouldTrackRequest lib (f\<lparr>ignoreHosts := before @ h # after\<rparr>) req
        = shouldTrackRequest lib (f\<lparr>ignoreHosts := before @ after\<rparr>) req"
    by (simp only: shouldTrackRequest_hosts [where hosts = "before @ h # after"]
        shouldTrackRequest_hosts [where hosts = "before @ after"])
next
  assume "CHR '':'' \<notin> set h"
  then show "parseDomainFromHost (h @ CHR '':'' # port) = parseDomainFromHost h"
    by (rule parseDomainFromHost_port)
qed

theorem C10_ignore_host_keeps_port_witness:
  "shouldTrackRequest exampleLib (exampleFeeder\<lparr>ignoreHosts := [''localhost'']\<rparr>)
     (exampleRequest ''localhost:8080'' ''192.168.0.1'')
   \<and> \<not> shouldTrackRequest exampleLib (exampleFeeder\<lparr>ignoreHosts := [''localhost'']\<rparr>)
     (exampleRequest ''LOCALHOST'' ''192.168.0.1'')
   \<and> parseDomainFromHost ''localhost:8080'' = parseDomainFromHost ''localhost''"
proof -
  let ?req = "exampleRequest ''localhost:8080'' ''192.168.0.1''"
  let ?up = "exampleRequest ''LOCALHOST'' ''192.168.0.1''"
  let ?f = "exampleFeeder\<lparr>ignoreHosts := [''localhost'']\<rparr>"
  note c = C10_ignore_host_keeps_port
  have "Host ?req = ''localhost'' @ CHR '':'' # ''8080''"
    by (simp add: exampleRequest_def)
  then have "shouldTrackRequest exampleLib (exampleFeeder\<lparr>ignoreHosts := [] @ ''localhost'' # []\<rparr>) ?req
      = shouldTrackRequest exampleLib (exampleFeeder\<lparr>ignoreHosts := [] @ []\<rparr>) ?req"
    using c [of ?req exampleFeeder exampleLib "''localhost''" "''8080''" "[]" "[]"] by blast
  moreover have "shouldTrackRequest exampleLib (exampleFeeder\<lparr>ignoreHosts := []\<rparr>) ?req"
    by (simp add: shouldTrackRequest_def exampleFeeder_fields)
  ultimately have one: "shouldTrackRequest exampleLib ?f ?req"
    by simp
  have "ToLower ''LOCALHOST'' = ToLower ''localhost''"
    by code_simp
  then have "list_ex (\<lambda>disabledHost. ToLower (Host ?up) = ToLower disabledHost) (ignoreHosts ?f)"
    by (simp add: exampleRequest_def)
  then have two: "\<not> shouldTrackRequest exampleLib ?f ?up"
    using c [of ?up ?f exampleLib] by blast
  have "CHR '':'' \<notin> set ''localhost''"
    by simp
  then have "parseDomainFromHost (''localhost'' @ CHR '':'' # ''8080'') = parseDomainFromHost ''localhost''"
    using c [of ?req ?f exampleLib "''localhost''" "''8080''"] by blast
  then have three: "parseDomainFromHost ''localhost:8080'' = parseDomainFromHost ''localhost''"
    by simp
  show ?thesis
    using one two three by simp
qed

section \<open>Properties of site resolution and of the queue\<close>

lemma getWebsiteId_queue: "queue (snd (getWebsiteId remote h hostname)) = queue h"
  by (simp add: getWebsiteId_def error_def Let_def split: option.splits sum.splits)

lemma Website_captureHeader: "Website (captureHeader req entry event) = Website event"
  by (cases entry) (simp add: captureHeader_def)

lemma Website_fold_captureHeader:
  "Website (fold (captureHeader req) entries event) = Website event"
  by (induction entries arbitrary: event) (simp_all add: Website_captureHeader)

lemma trySend_cases:
  "trySend c x = (c\<lparr>receiverWaiting := False, handed := handed c @ [x]\<rparr>, True)
   \<or> trySend c x = (c\<lparr>buffered := buffered c @ [x]\<rparr>, True) \<and> length (buffered c) < capacity c
   \<or> trySend c x = (c, False)"
  by (simp add: trySend_def)

lemma trySend_full:
  "length (buffered c) = capacity c \<Longrightarrow> \<not> receiverWaiting c \<Longrightarrow> trySend c x = (c, False)"
  by (simp add: trySend_def)

lemma trySend_bounded:
  "length (buffered c) \<le> capacity c \<Longrightarrow>
   length (buffered (fst (trySend c x))) \<le> capacity (fst (trySend c x))
   \<and> capacity (fst (trySend c x)) = capacity c"
  by (simp add: trySend_def)

text \<open>
  What \<open>submitToFeed\<close> does, in terms of the resolved identifier and of the send: it
  gives up when the identifier is empty, and otherwise sends one event that carries
  the identifier.
\<close>

lemma submitToFeed_cases:
  assumes "getWebsiteId remote h (parseDomainFromHost (Host req)) = (websiteId, h1)"
  shows "(websiteId = [] \<longrightarrow>
            submitToFeed lib remote now h req statusCode
            = error h1 (''tracking skipped, websiteId is unknown: '' @ parseDomainFromHost (Host req)))
         \<and> (websiteId \<noteq> [] \<longrightarrow>
              (\<exists>event. Website event = websiteId \<and>
                 submitToFeed lib remote now h req statusCode
                 = (case trySend (queue h1) event of
                      (q, True) \<Rightarrow> h1\<lparr>queue := q\<rparr>
                    | (q, False) \<Rightarrow> error h1 ''failed to submit event: queue full'')))"
proof (intro conjI impI)
  assume "websiteId = []"
  then show "submitToFeed lib remote now h req statusCode
      = error h1 (''tracking skipped, websiteId is unknown: '' @ parseDomainFromHost (Host req))"
    using assms by (simp add: submitToFeed_def)
next
  assume ne: "websiteId \<noteq> []"
  define event where "event =
    \<lparr>Website = websiteId, Hostname = parseDomainFromHost (Host req),
     Language = parseAcceptLanguage (HeaderGet req ''Accept-Language''),
     Referrer = Referer req, Url = URL_String req, Ip = extractRemoteIP lib req,
     UserAgent = HeaderGet req ''User-Agent'', Timestamp = now, Data = None\<rparr>"
  define event1 where "event1 =
    (if statusCode \<ge> 400 \<or> captureHeaders h1 \<noteq> [] then event\<lparr>Data := Some Map.empty\<rparr> else event)"
  define event2 where "event2 = fold (captureHeader req) (captureHeaders h1) event1"
  define event3 where "event3 =
    (if statusCode \<ge> 400
     then event2\<lparr>Data := Some ((the (Data event2))(''status_code'' \<mapsto> IntVal statusCode))\<rparr>
     else event2)"
  have "Website event1 = websiteId"
    by (simp add: event1_def event_def)
  then have "Website event2 = websiteId"
    by (simp add: event2_def Website_fold_captureHeader)
  then have w: "Website event3 = websiteId"
    by (simp add: event3_def)
  have "submitToFeed lib remote now h req statusCode
        = (case trySend (queue h1) event3 of
             (q, True) \<Rightarrow> h1\<lparr>queue := q\<rparr>
           | (q, False) \<Rightarrow> error h1 ''failed to submit event: queue full'')"
    using assms ne
    by (simp add: submitToFeed_def Let_def event3_def event2_def event1_def event_def)
  then show "\<exists>event. Website event = websiteId \<and>
      submitToFeed lib remote now h req statusCode
      = (case trySend (queue h1) event of
           (q, True) \<Rightarrow> h1\<lparr>queue := q\<rparr>
         | (q, False) \<Rightarrow> error h1 ''failed to submit event: queue full'')"
    using w by blast
qed

lemma New_queue:
  "New config = Some (h, started) \<Longrightarrow>
   buffered (queue h) = [] \<and> handed (queue h) = [] \<and> \<not> receiverWaiting (queue h)
   \<and> int (capacity (queue h)) = QueueSize config \<and> errors h = [] \<and> \<not> isEnabled h"
  by (auto simp: New_def Let_def split: if_splits)

lemma inQueue_trySend:
  "inQueue (fst (trySend c x)) \<subseteq> insert x (inQueue c)"
  using trySend_cases [of c x] by (auto simp: inQueue_def)

lemma submitToFeed_inQueue:
  assumes "getWebsiteId remote h (parseDomainFromHost (Host req)) = (websiteId, h1)"
  shows "inQueue (queue (submitToFeed lib remote now h req statusCode))
         \<subseteq> inQueue (queue h) \<union> {e. Website e = websiteId \<and> websiteId \<noteq> []}"
proof (cases "websiteId = []")
  case True
  then have "submitToFeed lib remote now h req statusCode
      = error h1 (''tracking skipped, websiteId is unknown: '' @ parseDomainFromHost (Host req))"
    using submitToFeed_cases [OF assms] by blast
  moreover have "queue h1 = queue h"
    using getWebsiteId_queue [of remote h "parseDomainFromHost (Host req)"] assms by simp
  ultimately show ?thesis
    by (simp add: error_def)
next
  case False
  then obtain event where w: "Website event = websiteId"
    and s: "submitToFeed lib remote now h req statusCode
      = (case trySend (queue h1) event of
           (q, True) \<Rightarrow> h1\<lparr>queue := q\<rparr>
         | (q, False) \<Rightarrow> error h1 ''failed to submit event: queue full'')"
    using submitToFeed_cases [OF assms] by blast
  have q: "queue h1 = queue h"
    using getWebsiteId_queue [of remote h "parseDomainFromHost (Host req)"] assms by simp
  have "inQueue (queue (submitToFeed lib remote now h req statusCode)) \<subseteq> insert event (inQueue (queue h))"
    using inQueue_trySend [of "queue h1" event] trySend_cases [of "queue h1" event] q
    by (auto simp: s error_def)
  then show ?thesis
    using w False by auto
qed

text \<open>
  Claim C8. \<open>submitToFeed\<close> resolves the site identifier first. When the identifier is
  empty it logs an error and leaves the queue as it was. Every event that it puts into
  the queue carries the resolved identifier, which is not empty; so all events in the
  queue have a site identifier, from the empty queue that \<open>New\<close> makes onwards.
\<close>

theorem C8_enqueued_event_has_website:
  assumes "getWebsiteId remote h (parseDomainFromHost (Host req)) = (websiteId, h1)"
    and "h' = submitToFeed lib remote now h req statusCode"
  shows "(websiteId = [] \<longrightarrow>
            queue h' = queue h
            \<and> errors h' = errors h1 @
                [''tracking skipped, websiteId is unknown: '' @ parseDomainFromHost (Host req)])
         \<and> (\<forall>e \<in> inQueue (queue h') - inQueue (queue h). Website e = websiteId \<and> Website e \<noteq> [])
         \<and> ((\<forall>e \<in> inQueue (queue h). Website e \<noteq> []) \<longrightarrow>
              (\<forall>e \<in> inQueue (queue h'). Website e \<noteq> []))
         \<and> (New config = Some (h, started) \<longrightarrow> inQueue (queue h) = {})"
proof (intro conjI impI)
  assume e: "websiteId = []"
  then have s: "h' = error h1 (''tracking skipped, websiteId is unknown: '' @ parseDomainFromHost (Host req))"
    using submitToFeed_cases [OF assms(1)] assms(2) by blast
  have q: "queue h1 = queue h"
    using getWebsiteId_queue [of remote h "parseDomainFromHost (Host req)"] assms(1) by simp
  show "queue h' = queue h"
    using s q by (simp add: error_def)
  show "errors h' = errors h1 @
      [''tracking skipped, websiteId is unknown: '' @ parseDomainFromHost (Host req)]"
    using s by (simp add: error_def)
next
  show "\<forall>e \<in> inQueue (queue h') - inQueue (queue h). Website e = websiteId \<and> Website e \<noteq> []"
    using submitToFeed_inQueue [OF assms(1)] assms(2) by blast
next
  assume "\<forall>e \<in> inQueue (queue h). Website e \<noteq> []"
  then show "\<forall>e \<in> inQueue (queue h'). Website e \<noteq> []"
    using submitToFeed_inQueue [OF assms(1)] assms(2) by blast
next
  assume "New config = Some (h, started)"
  then show "inQueue (queue h) = {}"
    using New_queue by (fastforce simp: inQueue_def)
qed

lemma parseDomainFromHost_example:
  "parseDomainFromHost ''example.com'' = ''example.com''"
  "parseDomainFromHost ''old.example'' = ''old.example''"
  by code_simp+

lemma New_exampleConfig: "New exampleConfig = Some (exampleFeeder, True)"
  by (simp add: exampleFeeder_def New_def exampleConfig_def CreateConfig_def)

lemma exampleFeeder_websites:
  "websites exampleFeeder ''example.com'' = Some ''site-1''"
  "websites exampleFeeder ''old.example'' = None"
  by (simp_all add: exampleFeeder_def New_def exampleConfig_def CreateConfig_def)

theorem C8_enqueued_event_has_website_witness:
  "map Website (buffered (queue (submitToFeed exampleLib exampleRemote 1700000000 exampleFeeder
      (exampleRequest ''example.com'' ''192.168.0.1'') 200))) = [''site-1'']
   \<and> queue (submitToFeed exampleLib exampleRemote 1700000000 exampleFeeder
      (exampleRequest ''old.example'' ''192.168.0.1'') 200) = queue exampleFeeder
   \<and> errors (submitToFeed exampleLib exampleRemote 1700000000 exampleFeeder
      (exampleRequest ''old.example'' ''192.168.0.1'') 200)
     = [''failed to create website: request failed with status 500 ()'',
        ''tracking skipped, websiteId is unknown: old.example'']"
proof -
  let ?hit = "exampleRequest ''example.com'' ''192.168.0.1''"
  let ?miss = "exampleRequest ''old.example'' ''192.168.0.1''"
  let ?h1 = "submitToFeed exampleLib exampleRemote 1700000000 exampleFeeder ?hit 200"
  let ?h2 = "submitToFeed exampleLib exampleRemote 1700000000 exampleFeeder ?miss 200"
  have g1: "getWebsiteId exampleRemote exampleFeeder (parseDomainFromHost (Host ?hit))
      = (''site-1'', exampleFeeder)"
    by (simp add: getWebsiteId_def exampleRequest_def parseDomainFromHost_example
        exampleFeeder_websites)
  have empty: "inQueue (queue exampleFeeder) = {}"
    using C8_enqueued_event_has_website [OF g1 refl, of exampleLib 1700000000 200 exampleConfig True]
      New_exampleConfig by blast
  have "\<forall>e \<in> inQueue (queue ?h1) - inQueue (queue exampleFeeder). Website e = ''site-1''"
    using C8_enqueued_event_has_website [OF g1 refl, of exampleLib 1700000000 200] by blast
  then have all: "\<forall>e \<in> set (buffered (queue ?h1)). Website e = ''site-1''"
    using empty by (simp add: inQueue_def)
  have "length (buffered (queue ?h1)) = 1"
    by (simp add: submitToFeed_def g1 trySend_def exampleFeeder_fields Let_def)
  then have one: "map Website (buffered (queue ?h1)) = [''site-1'']"
    using all by (cases "buffered (queue ?h1)") simp_all
  obtain h1 where g2: "getWebsiteId exampleRemote exampleFeeder (parseDomainFromHost (Host ?miss))
      = ([], h1)"
    and e1: "errors h1 = [''failed to create website: request failed with status 500 ()'']"
    by (simp add: getWebsiteId_def exampleRequest_def parseDomainFromHost_example
        exampleFeeder_websites exampleRemote_def error_def exampleFeeder_fields)
  have "queue ?h2 = queue exampleFeeder
      \<and> errors ?h2 = errors h1 @
          [''tracking skipped, websiteId is unknown: '' @ parseDomainFromHost (Host ?miss)]"
    using C8_enqueued_event_has_website [OF g2 refl, of exampleLib 1700000000 200] by blast
  then have two: "queue ?h2 = queue exampleFeeder
      \<and> errors ?h2 = [''failed to create website: request failed with status 500 ()'',
          ''tracking skipped, websiteId is unknown: old.example'']"
    using e1 by (simp add: exampleRequest_def parseDomainFromHost_example)
  show ?thesis
    using one two by simp
qed

lemma chanInvariant_trySend: "chanInvariant c \<Longrightarrow> chanInvariant (fst (trySend c x))"
  by (auto simp: chanInvariant_def trySend_def)

lemma chanInvariant_receive: "chanInvariant c \<Longrightarrow> chanInvariant (fst (receive c))"
  by (auto simp: chanInvariant_def receive_def split: list.splits)

lemma chanInvariant_New: "New config = Some (h, started) \<Longrightarrow> chanInvariant (queue h)"
  using New_queue [of config h started] by (simp add: chanInvariant_def)

lemma submitToFeed_queue:
  assumes "getWebsiteId remote h (parseDomainFromHost (Host req)) = (websiteId, h1)"
  shows "queue (submitToFeed lib remote now h req statusCode) = queue h
         \<or> (\<exists>event. websiteId \<noteq> [] \<and> snd (trySend (queue h) event)
              \<and> queue (submitToFeed lib remote now h req statusCode) = fst (trySend (queue h) event))"
proof (cases "websiteId = []")
  case True
  then have "submitToFeed lib remote now h req statusCode
      = error h1 (''tracking skipped, websiteId is unknown: '' @ parseDomainFromHost (Host req))"
    using submitToFeed_cases [OF assms] by blast
  moreover have "queue h1 = queue h"
    using getWebsiteId_queue [of remote h "parseDomainFromHost (Host req)"] assms by simp
  ultimately show ?thesis
    by (simp add: error_def)
next
  case False
  then obtain event where
    s: "submitToFeed lib remote now h req statusCode
      = (case trySend (queue h1) event of
           (q, True) \<Rightarrow> h1\<lparr>queue := q\<rparr>
         | (q, False) \<Rightarrow> error h1 ''failed to submit event: queue full'')"
    using submitToFeed_cases [OF assms] by blast
  have q: "queue h1 = queue h"
    using getWebsiteId_queue [of remote h "parseDomainFromHost (Host req)"] assms by simp
  show ?thesis
  proof (cases "snd (trySend (queue h) event)")
    case True
    then have "queue (submitToFeed lib remote now h req statusCode) = fst (trySend (queue h) event)"
      using s q by (cases "trySend (queue h) event") simp
    then show ?thesis
      using True False by blast
  next
    case False
    then have "queue (submitToFeed lib remote now h req statusCode) = queue h"
      using s q by (cases "trySend (queue h) event") (simp add: error_def)
    then show ?thesis
      by simp
  qed
qed

text \<open>
  Claim C2, as the code has it. The send of \<open>submitToFeed\<close> is one step that either
  hands the event over or runs the \<open>default\<close> case: it succeeds exactly when a receiver
  is blocked on the channel or the buffer has room. The number of buffered events never
  exceeds the capacity. When the buffer holds as many events as the capacity and no
  receiver is blocked on the channel, the event is dropped and \<open>queue full\<close> is logged.
  With a capacity of at least one, a full buffer leaves no receiver blocked.
\<close>

theorem C2_enqueue_never_blocks_bounded:
  assumes "getWebsiteId remote h (parseDomainFromHost (Host req)) = (websiteId, h1)"
    and "h' = submitToFeed lib remote now h req statusCode"
  shows "snd (trySend c x) = (receiverWaiting c \<or> length (buffered c) < capacity c)
         \<and> capacity (queue h') = capacity (queue h)
         \<and> (length (buffered (queue h)) \<le> capacity (queue h) \<longrightarrow>
              length (buffered (queue h')) \<le> capacity (queue h'))
         \<and> (length (buffered (queue h)) = capacity (queue h) \<and> \<not> receiverWaiting (queue h) \<longrightarrow>
              queue h' = queue h
              \<and> (websiteId \<noteq> [] \<longrightarrow> errors h' = errors h1 @ [''failed to submit event: queue full'']))
         \<and> (chanInvariant (queue h) \<and> 0 < capacity (queue h)
              \<and> length (buffered (queue h)) = capacity (queue h) \<longrightarrow> \<not> receiverWaiting (queue h))
         \<and> (chanInvariant (queue h) \<longrightarrow> chanInvariant (queue h'))
         \<and> (New config = Some (h, started) \<longrightarrow> chanInvariant (queue h))"
proof -
  note q = submitToFeed_queue [OF assms(1), of lib now statusCode]
  have h1: "queue h1 = queue h"
    using getWebsiteId_queue [of remote h "parseDomainFromHost (Host req)"] assms(1) by simp
  have a: "snd (trySend c x) = (receiverWaiting c \<or> length (buffered c) < capacity c)"
    by (simp add: trySend_def)
  have b: "capacity (queue h') = capacity (queue h)"
    using q assms(2) by (auto simp: trySend_def)
  have c: "length (buffered (queue h')) \<le> capacity (queue h')"
    if "length (buffered (queue h)) \<le> capacity (queue h)"
    using q assms(2) trySend_bounded [OF that] that by (metis b)
  have d1: "queue h' = queue h"
    if "length (buffered (queue h)) = capacity (queue h) \<and> \<not> receiverWaiting (queue h)"
    using q assms(2) that by (auto simp: trySend_def)
  have d2: "errors h' = errors h1 @ [''failed to submit event: queue full'']"
    if full: "length (buffered (queue h)) = capacity (queue h) \<and> \<not> receiverWaiting (queue h)"
      and ne: "websiteId \<noteq> []"
  proof -
    obtain event where
      s: "submitToFeed lib remote now h req statusCode
        = (case trySend (queue h1) event of
             (q, True) \<Rightarrow> h1\<lparr>queue := q\<rparr>
           | (q, False) \<Rightarrow> error h1 ''failed to submit event: queue full'')"
      using submitToFeed_cases [OF assms(1)] ne by blast
    have "trySend (queue h1) event = (queue h1, False)"
      using full h1 by (simp add: trySend_full)
    then show ?thesis
      using s assms(2) by (simp add: error_def)
  qed
  have e: "\<not> receiverWaiting (queue h)"
    if "chanInvariant (queue h) \<and> 0 < capacity (queue h)
        \<and> length (buffered (queue h)) = capacity (queue h)"
    using that by (auto simp: chanInvariant_def)
  have f: "chanInvariant (queue h')" if "chanInvariant (queue h)"
    using q assms(2) chanInvariant_trySend [OF that] that by auto
  have g: "chanInvariant (queue h)" if "New config = Some (h, started)"
    using that by (rule chanInvariant_New)
  show ?thesis
    using a b c d1 d2 e f g by blast
qed

lemma exampleRequest_host:
  "parseDomainFromHost (Host (exampleRequest ''example.com'' ip)) = ''example.com''"
  by (simp add: exampleRequest_def parseDomainFromHost_example)

lemma fullFeeder_fields:
  "map Website (buffered (queue fullFeeder)) = [''site-1'']"
  "capacity (queue fullFeeder) = 1"
  "receiverWaiting (queue fullFeeder) = False"
  "errors fullFeeder = []"
  "websites fullFeeder ''example.com'' = Some ''site-1''"
  by (simp_all add: fullFeeder_def submitToFeed_def getWebsiteId_def exampleRequest_host
      New_def exampleConfig_def CreateConfig_def trySend_def Let_def)

theorem C2_enqueue_never_blocks_bounded_witness:
  "length (buffered (queue fullFeeder)) = capacity (queue fullFeeder)
   \<and> \<not> receiverWaiting (queue fullFeeder)
   \<and> queue (submitToFeed exampleLib exampleRemote 1700000001 fullFeeder
        (exampleRequest ''example.com'' ''192.168.0.1'') 200) = queue fullFeeder
   \<and> errors (submitToFeed exampleLib exampleRemote 1700000001 fullFeeder
        (exampleRequest ''example.com'' ''192.168.0.1'') 200)
      = [''failed to submit event: queue full'']"
proof -
  let ?req = "exampleRequest ''example.com'' ''192.168.0.1''"
  have g: "getWebsiteId exampleRemote fullFeeder (parseDomainFromHost (Host ?req))
      = (''site-1'', fullFeeder)"
    by (simp add: getWebsiteId_def exampleRequest_host fullFeeder_fields)
  have "length (map Website (buffered (queue fullFeeder))) = 1"
    by (simp only: fullFeeder_fields) simp
  then have "length (buffered (queue fullFeeder)) = 1"
    by (simp only: length_map)
  then have full: "length (buffered (queue fullFeeder)) = capacity (queue fullFeeder)
      \<and> \<not> receiverWaiting (queue fullFeeder)"
    by (simp add: fullFeeder_fields)
  have ne: "''site-1'' \<noteq> []"
    by simp
  note c = C2_enqueue_never_blocks_bounded
      [OF g refl, where lib = exampleLib and now = 1700000001 and statusCode = 200]
  have "length (buffered (queue fullFeeder)) = capacity (queue fullFeeder)
        \<and> \<not> receiverWaiting (queue fullFeeder) \<longrightarrow>
      queue (submitToFeed exampleLib exampleRemote 1700000001 fullFeeder ?req 200)
        = queue fullFeeder
      \<and> (''site-1'' \<noteq> [] \<longrightarrow>
          errors (submitToFeed exampleLib exampleRemote 1700000001 fullFeeder ?req 200)
          = errors fullFeeder @ [''failed to submit event: queue full''])"
    by (rule c [THEN conjunct2, THEN conjunct2, THEN conjunct2, THEN conjunct1])
  with full ne have "queue (submitToFeed exampleLib exampleRemote 1700000001 fullFeeder ?req 200)
        = queue fullFeeder
      \<and> errors (submitToFeed exampleLib exampleRemote 1700000001 fullFeeder ?req 200)
        = errors fullFeeder @ [''failed to submit event: queue full'']"
    by simp
  then show ?thesis
    using full by (simp add: fullFeeder_fields)
qed

text \<open>
  Claim C2 as it is stated fails for a queue of capacity zero: the channel then has no
  buffer, so the queue always holds as many events as its capacity, and yet an event
  sent while the worker waits in its \<open>select\<close> is handed to the worker, not dropped, and
  nothing is logged.
\<close>

theorem C2_enqueue_counterexample:
  "length (buffered (queue unbufferedFeeder)) = capacity (queue unbufferedFeeder)
   \<and> map Website (handed (queue (submitToFeed exampleLib exampleRemote 1700000000
        unbufferedFeeder (exampleRequest ''example.com'' ''192.168.0.1'') 200))) = [''site-1'']
   \<and> errors (submitToFeed exampleLib exampleRemote 1700000000
        unbufferedFeeder (exampleRequest ''example.com'' ''192.168.0.1'') 200) = []"
  by (simp add: unbufferedFeeder_def submitToFeed_def getWebsiteId_def exampleRequest_host
      New_def exampleConfig_def CreateConfig_def trySend_def receive_def Let_def)

section \<open>Properties of the dispatch worker\<close>

lemma umamiEventFeeder_returns_nil:
  "umamiEventFeeder h start turns \<noteq> (h1, Returned (Some err), rest)"
  by (auto simp: umamiEventFeeder_def split: prod.splits outcome.splits)

text \<open>
  \<open>startWorker\<close> in terms of the loop: since \<open>umamiEventFeeder\<close> never returns an error,
  it is called once.
\<close>

lemma startWorker_feederLoop:
  "startWorker h start turns =
     (if batchSize h < 0
      then (error h ''panic: runtime error: makeslice: cap out of range'', Returned (), turns)
      else (case feederLoop h (startState h start) turns of
              (h1, Returned u, rest) \<Rightarrow> (h1, Returned (), rest)
            | (h1, Panicked panicVal, rest) \<Rightarrow>
                (error h1 (''panic: '' @ panicVal), Returned (), rest)
            | (h1, Blocked w, rest) \<Rightarrow> (h1, Blocked w, rest)))"
proof (cases "batchSize h < 0")
  case True
  then have "umamiEventFeeder h start turns
      = (error h ''panic: runtime error: makeslice: cap out of range'', Returned None, turns)"
    by (simp add: umamiEventFeeder_def)
  then show ?thesis
    using True by (subst startWorker.simps) simp
next
  case False
  obtain h1 out rest where f: "feederLoop h (startState h start) turns = (h1, out, rest)"
    by (cases "feederLoop h (startState h start) turns") auto
  show ?thesis
  proof (cases out)
    case (Returned u)
    then have "umamiEventFeeder h start turns = (h1, Returned None, rest)"
      using False f by (simp add: umamiEventFeeder_def)
    then show ?thesis
      using False f Returned by (subst startWorker.simps) simp
  next
    case (Panicked panicVal)
    then have "umamiEventFeeder h start turns
        = (error h1 (''panic: '' @ panicVal), Returned None, rest)"
      using False f by (simp add: umamiEventFeeder_def)
    then show ?thesis
      using False f Panicked by (subst startWorker.simps) simp
  next
    case (Blocked w)
    then have "umamiEventFeeder h start turns = (h1, Blocked w, rest)"
      using False f by (simp add: umamiEventFeeder_def)
    then show ?thesis
      using False f Blocked by (subst startWorker.simps) simp
  qed
qed

lemma startWorker_after_panic:
  assumes "0 \<le> batchSize h"
    and "feederLoop h (startState h start) turns = (h1, Panicked panicVal, rest)"
  shows "startWorker h start turns = (error h1 (''panic: '' @ panicVal), Returned (), rest)"
  using assms by (simp add: startWorker_feederLoop)

lemma activeFeeder_fields:
  "batchSize activeFeeder = 2" "errors activeFeeder = []" "flushes activeFeeder = []"
  "batchMaxWait activeFeeder = 5 * Second"
  by (simp_all add: activeFeeder_def exampleFeeder_fields exampleFeeder_def New_def
      exampleConfig_def CreateConfig_def)

text \<open>
  Claim C1 does not hold of the code. The deferred function of \<open>umamiEventFeeder\<close>
  recovers from the panic and logs it, but the function then returns \<open>nil\<close>, on which
  \<open>startWorker\<close> returns: the loop is not started again. Below, the worker has returned
  after the fault, and the two page views that came after it are never received.
\<close>

theorem C1_worker_returns_after_panic:
  "startWorker activeFeeder 0 faultyTurns =
     (activeFeeder
        \<lparr>flushes := [[\<lparr>Payload = pageView ''/a'', Type = ''event''\<rparr>,
                       \<lparr>Payload = pageView ''/b'', Type = ''event''\<rparr>]],
         errors := [''panic: runtime error: invalid memory address or nil pointer dereference'']\<rparr>,
      Returned (),
      [received (3 * Second) ''/c'' Sent, received (4 * Second) ''/d'' Sent])"
  by (simp add: startWorker_feederLoop faultyTurns_def received_def iteration_def
      reportEventsToUmami_def startState_def activeFeeder_fields error_def Let_def)



lemma batchSize_error: "batchSize (error h message) = batchSize h"
  by (simp add: error_def)





section \<open>Properties of the connection state machine\<close>

lemma isEnabled_error: "isEnabled (error h message) = isEnabled h"
  by (simp add: error_def)

lemma isEnabled_connect: "isEnabled (fst (connect h config a)) = isEnabled h"
  by (auto simp: connect_def split: sum.splits if_splits)

lemma verifyIgnoreIPs_fails:
  "(snd (verifyIgnoreIPs lib h ignoreIPs) \<noteq> None)
   = (\<exists>ignoreIP \<in> set ignoreIPs. parseIgnoreIP lib ignoreIP = None)"
  by (induction ignoreIPs arbitrary: h) (auto split: option.splits)

lemma verifyIgnoreURLs_fails:
  "(snd (verifyIgnoreURLs lib h locations) \<noteq> None)
   = (\<exists>location \<in> set locations. Compile lib location = None)"
  by (induction locations arbitrary: h) (auto split: option.splits)

lemma verifyConfig_fails:
  "(snd (verifyConfig lib h config) \<noteq> None)
   = ((\<exists>ignoreIP \<in> set (IgnoreIPs config). parseIgnoreIP lib ignoreIP = None)
      \<or> (\<exists>location \<in> set (IgnoreURLs config). Compile lib location = None))"
proof -
  obtain h1 r where v: "verifyIgnoreIPs lib h (IgnoreIPs config) = (h1, r)"
    by (cases "verifyIgnoreIPs lib h (IgnoreIPs config)") auto
  show ?thesis
  proof (cases r)
    case None
    then have "\<not> (\<exists>ignoreIP \<in> set (IgnoreIPs config). parseIgnoreIP lib ignoreIP = None)"
      using v verifyIgnoreIPs_fails [of lib h "IgnoreIPs config"] by simp
    moreover have "verifyConfig lib h config = verifyIgnoreURLs lib h1 (IgnoreURLs config)"
      using v None by (simp add: verifyConfig_def)
    then have "(snd (verifyConfig lib h config) \<noteq> None)
        = (\<exists>location \<in> set (IgnoreURLs config). Compile lib location = None)"
      by (simp only: verifyIgnoreURLs_fails)
    ultimately show ?thesis
      by blast
  next
    case (Some err)
    then have "\<exists>ignoreIP \<in> set (IgnoreIPs config). parseIgnoreIP lib ignoreIP = None"
      using v verifyIgnoreIPs_fails [of lib h "IgnoreIPs config"] by simp
    moreover have "snd (verifyConfig lib h config) \<noteq> None"
      using v Some by (simp add: verifyConfig_def)
    ultimately show ?thesis
      by simp
  qed
qed

lemma errors_verifyIgnoreIPs: "errors (fst (verifyIgnoreIPs lib h ignoreIPs)) = errors h"
  by (induction ignoreIPs arbitrary: h) (auto split: option.splits)

lemma errors_verifyIgnoreURLs: "errors (fst (verifyIgnoreURLs lib h locations)) = errors h"
  by (induction locations arbitrary: h) (auto split: option.splits)

lemma errors_verifyConfig: "errors (fst (verifyConfig lib h config)) = errors h"
proof -
  obtain h1 r where v: "verifyIgnoreIPs lib h (IgnoreIPs config) = (h1, r)"
    by (cases "verifyIgnoreIPs lib h (IgnoreIPs config)") auto
  then have "errors h1 = errors h"
    using errors_verifyIgnoreIPs [of lib h "IgnoreIPs config"] by simp
  then show ?thesis
    using v errors_verifyIgnoreURLs [of lib h1 "IgnoreURLs config"]
    by (cases r) (simp_all add: verifyConfig_def)
qed

lemma retryConnection_never_active:
  assumes "\<And>h. snd (verifyConfig lib h config) \<noteq> None"
    and "\<not> isEnabled h"
    and "retryConnection lib config h retryAttempt attempts = (h', p, delays)"
  shows "\<not> isEnabled h' \<and> p \<noteq> Active"
  using assms(2,3)
proof (induction attempts arbitrary: h retryAttempt h' p delays)
  case Nil
  then show ?case by auto
next
  case (Cons a attempts)
  show ?case
  proof (cases "wake a")
    case ContextDone
    then show ?thesis
      using Cons.prems by auto
  next
    case DelayElapsed
    obtain h1 r where c: "connect h config a = (h1, r)"
      by (cases "connect h config a") auto
    then have e1: "\<not> isEnabled h1"
      using Cons.prems(1) isEnabled_connect [of h config a] by simp
    show ?thesis
    proof (cases r)
      case (Some err)
      let ?h = "error h1 (''Failed to reconnect to Umami: '' @ err)"
      obtain h2 p2 d2 where
        r: "retryConnection lib config ?h (retryAttempt + 1) attempts = (h2, p2, d2)"
        by (cases "retryConnection lib config ?h (retryAttempt + 1) attempts") auto
      have "\<not> isEnabled ?h"
        using e1 by (simp add: isEnabled_error)
      then have "\<not> isEnabled h2 \<and> p2 \<noteq> Active"
        using r by (rule Cons.IH)
      moreover have "h' = h2 \<and> p = p2"
        using Cons.prems(2) DelayElapsed c Some r by simp
      ultimately show ?thesis
        by simp
    next
      case None
      obtain h2 v where v: "verifyConfig lib h1 config = (h2, v)"
        by (cases "verifyConfig lib h1 config") auto
      then obtain err where "v = Some err"
        using assms(1) [of h1] by auto
      then show ?thesis
        using Cons.prems(2) DelayElapsed c None v by auto
    qed
  qed
qed

text \<open>
  Claim C4. Let some ignored address of the configuration parse neither as a prefix nor,
  with \<open>/32\<close> appended, as an address, or let some ignored location not compile. Then
  \<open>verifyConfig\<close> returns an error on every call. \<open>New\<close> leaves the plugin switched off,
  and from a plugin that is switched off \<open>retryConnection\<close> never switches it on and
  never reaches the point where the worker is started, whatever the attempts bring. As
  soon as an attempt connects, \<open>retryConnection\<close> logs the error and returns with the
  plugin switched off: the attempts that might follow play no role, and no delay after
  the current one is asked for.
\<close>

theorem C4_invalid_config_disables:
  assumes "(\<exists>ignoreIP \<in> set (IgnoreIPs config). parseIgnoreIP lib ignoreIP = None)
           \<or> (\<exists>location \<in> set (IgnoreURLs config). Compile lib location = None)"
  shows "snd (verifyConfig lib h0 config) \<noteq> None
         \<and> (New config = Some (h, started) \<longrightarrow> \<not> isEnabled h)
         \<and> (\<not> isEnabled h \<and> retryConnection lib config h retryAttempt attempts = (h', p, delays)
              \<longrightarrow> \<not> isEnabled h' \<and> p \<noteq> Active)
         \<and> (wake a = DelayElapsed \<and> connect h config a = (h1, None) \<longrightarrow>
              (\<exists>h2 err. retryConnection lib config h retryAttempt (a # attempts)
                           = (h2, Disabled, [currentDelay retryAttempt])
                 \<and> \<not> isEnabled h2
                 \<and> errors h2 = errors h1 @ [''Configuration error, the plugin is disabled: '' @ err]))"
proof -
  have fails: "snd (verifyConfig lib g config) \<noteq> None" for g
    using assms by (simp only: verifyConfig_fails)
  have a: "snd (verifyConfig lib h0 config) \<noteq> None"
    by (rule fails)
  have b: "New config = Some (h, started) \<longrightarrow> \<not> isEnabled h"
    using New_queue by blast
  have c: "\<not> isEnabled h \<and> retryConnection lib config h retryAttempt attempts = (h', p, delays)
      \<longrightarrow> \<not> isEnabled h' \<and> p \<noteq> Active"
    using retryConnection_never_active [of lib config h retryAttempt attempts h' p delays] fails
    by blast
  have d: "wake a = DelayElapsed \<and> connect h config a = (h1, None) \<longrightarrow>
      (\<exists>h2 err. retryConnection lib config h retryAttempt (a # attempts)
                   = (h2, Disabled, [currentDelay retryAttempt])
          \<and> \<not> isEnabled h2
          \<and> errors h2 = errors h1 @ [''Configuration error, the plugin is disabled: '' @ err])"
  proof
    assume c: "wake a = DelayElapsed \<and> connect h config a = (h1, None)"
    obtain h2 v where v: "verifyConfig lib h1 config = (h2, v)"
      by (cases "verifyConfig lib h1 config") auto
    then obtain err where e: "v = Some err"
      using fails [of h1] by auto
    have same: "errors h2 = errors h1"
      using v errors_verifyConfig [of lib h1 config] by simp
    show "\<exists>h2 err. retryConnection lib config h retryAttempt (a # attempts)
                   = (h2, Disabled, [currentDelay retryAttempt])
          \<and> \<not> isEnabled h2
          \<and> errors h2 = errors h1 @ [''Configuration error, the plugin is disabled: '' @ err]"
      using c v e same by (auto simp: error_def)
  qed
  show ?thesis
    by (rule conjI [OF a conjI [OF b conjI [OF c d]]])
qed

lemma New_invalidIpConfig: "New invalidIpConfig = Some (invalidIpFeeder, True)"
  by (simp add: invalidIpFeeder_def New_def invalidIpConfig_def exampleConfig_def CreateConfig_def)

lemma invalidIp_unparsed: "parseIgnoreIP exampleLib ''127.0.0.1-127.0.0.10'' = None"
  by (simp add: parseIgnoreIP_def exampleLib_def)

lemma retryConnection_twoAttempts:
  "\<exists>h'. retryConnection exampleLib invalidIpConfig invalidIpFeeder 0 twoAttempts
     = (h', Disabled, [0, 30 * Second])
     \<and> errors h' =
         [''Failed to reconnect to Umami: failed to fetch websites: request failed with status 502 ()'',
          ''Configuration error, the plugin is disabled: invalid ignoreIP given 127.0.0.1-127.0.0.10'']"
  by (simp add: twoAttempts_def connect_def verifyConfig_def invalidIp_unparsed
      invalidIpFeeder_def New_def invalidIpConfig_def exampleConfig_def CreateConfig_def
      error_def currentDelay_def)

theorem C4_invalid_config_disables_witness:
  "parseIgnoreIP exampleLib ''127.0.0.1-127.0.0.10'' = None
   \<and> fst (snd (retryConnection exampleLib invalidIpConfig invalidIpFeeder 0 twoAttempts)) = Disabled
   \<and> snd (snd (retryConnection exampleLib invalidIpConfig invalidIpFeeder 0 twoAttempts))
      = [0, 30 * Second]
   \<and> \<not> isEnabled (fst (retryConnection exampleLib invalidIpConfig invalidIpFeeder 0 twoAttempts))"
proof -
  obtain h' where r: "retryConnection exampleLib invalidIpConfig invalidIpFeeder 0 twoAttempts
      = (h', Disabled, [0, 30 * Second])"
    using retryConnection_twoAttempts by blast
  have bad: "(\<exists>ignoreIP \<in> set (IgnoreIPs invalidIpConfig). parseIgnoreIP exampleLib ignoreIP = None)
      \<or> (\<exists>location \<in> set (IgnoreURLs invalidIpConfig). Compile exampleLib location = None)"
    by (simp add: invalidIpConfig_def invalidIp_unparsed)
  note c = C4_invalid_config_disables [OF bad, where h = invalidIpFeeder and started = True
      and retryAttempt = 0 and attempts = twoAttempts and h' = h' and p = Disabled
      and delays = "[0, 30 * Second]"]
  have off: "\<not> isEnabled invalidIpFeeder"
    using c New_invalidIpConfig by blast
  then have "\<not> isEnabled h'"
    using c r by blast
  then show ?thesis
    using r invalidIp_unparsed by simp
qed

section \<open>Properties of concurrent site resolution\<close>

text \<open>A caller that runs its two parts without interruption runs \<open>getWebsiteId\<close>.\<close>

lemma stepCaller_twice:
  assumes "i < length (callers s)" and "callers s ! i = AtStart"
  shows "plugin (stepCaller remote hostname i (stepCaller remote hostname i s))
           = snd (getWebsiteId remote (plugin s) hostname)
         \<and> callers (stepCaller remote hostname i (stepCaller remote hostname i s)) ! i
           = Done (fst (getWebsiteId remote (plugin s) hostname))"
  using assms
  by (auto simp: stepCaller_def getWebsiteId_def Let_def split: option.splits sum.splits)

lemma length_stepCaller: "length (callers (stepCaller remote hostname i s)) = length (callers s)"
  by (auto simp: stepCaller_def Let_def split: pc.splits option.splits sum.splits)

lemma length_interleave:
  "length (callers (interleave remote hostname schedule s)) = length (callers s)"
  unfolding interleave_def
  by (induction schedule arbitrary: s) (simp_all add: length_stepCaller)

lemma set_update_cases: "c \<in> set (xs[i := x]) \<Longrightarrow> c = x \<or> c \<in> set xs"
  using set_update_subset_insert by fastforce

lemma agreeing_stepCaller:
  assumes ok: "websites h hostname \<noteq> None
      \<or> (\<exists>website. remote (length (createCalls h)) hostname = Inr website
            \<and> Domain website = hostname)"
    and inv: "agreeing remote h hostname s"
  shows "agreeing remote h hostname (stepCaller remote hostname i s)"
proof (cases "length (callers s) \<le> i")
  case True
  then show ?thesis
    using inv by (simp add: stepCaller_def)
next
  case False
  note i = False
  show ?thesis
  proof (cases "callers s ! i")
    case (Done websiteId)
    then show ?thesis
      using inv i by (simp add: stepCaller_def)
  next
    case AtStart
    show ?thesis
    proof (cases "websites (plugin s) hostname")
      case None
      then have "stepCaller remote hostname i s = s\<lparr>callers := (callers s)[i := Missed]\<rparr>"
        using i AtStart by (simp add: stepCaller_def)
      then show ?thesis
        using inv by (auto simp: agreeing_def dest: set_update_cases)
    next
      case (Some websiteId)
      then have "stepCaller remote hostname i s
          = s\<lparr>callers := (callers s)[i := Done websiteId]\<rparr>"
        using i AtStart by (simp add: stepCaller_def)
      moreover have "websiteId = expectedId remote h hostname"
        using inv Some by (simp add: agreeing_def)
      ultimately show ?thesis
        using inv by (auto simp: agreeing_def dest: set_update_cases)
    qed
  next
    case Missed
    show ?thesis
    proof (cases "websites (plugin s) hostname")
      case (Some websiteId)
      then have "stepCaller remote hostname i s
          = s\<lparr>callers := (callers s)[i := Done websiteId]\<rparr>"
        using i Missed by (simp add: stepCaller_def)
      moreover have "websiteId = expectedId remote h hostname"
        using inv Some by (simp add: agreeing_def)
      ultimately show ?thesis
        using inv by (auto simp: agreeing_def dest: set_update_cases)
    next
      case None
      then have calls: "createCalls (plugin s) = createCalls h" and none: "websites h hostname = None"
        using inv by (simp_all add: agreeing_def)
      then obtain website where w: "remote (length (createCalls h)) hostname = Inr website"
        and d: "Domain website = hostname"
        using ok by auto
      have e: "expectedId remote h hostname = ID website"
        using none w by (simp add: expectedId_def)
      have "stepCaller remote hostname i s
          = \<lparr>plugin = (plugin s)\<lparr>createCalls := createCalls (plugin s) @ [hostname],
                                  websites := (websites (plugin s))(hostname \<mapsto> ID website)\<rparr>,
             callers = (callers s)[i := Done (ID website)]\<rparr>"
        using i Missed None calls w d by (simp add: stepCaller_def Let_def)
      then show ?thesis
        using inv e calls by (auto simp: agreeing_def dest: set_update_cases)
    qed
  qed
qed

lemma agreeing_interleave:
  assumes "websites h hostname \<noteq> None
      \<or> (\<exists>website. remote (length (createCalls h)) hostname = Inr website
            \<and> Domain website = hostname)"
  shows "agreeing remote h hostname s \<Longrightarrow>
         agreeing remote h hostname (interleave remote hostname schedule s)"
  unfolding interleave_def
proof (induction schedule arbitrary: s)
  case Nil
  then show ?case by simp
next
  case (Cons i schedule)
  have "agreeing remote h hostname (stepCaller remote hostname i s)"
    using assms Cons.prems by (rule agreeing_stepCaller)
  then show ?case
    using Cons.IH by simp
qed

lemma agreeing_start:
  "agreeing remote h hostname \<lparr>plugin = h, callers = replicate n AtStart\<rparr>"
  by (auto simp: agreeing_def expectedId_def)

lemma progress_stepCaller_other:
  "j < length (callers s) \<Longrightarrow>
   progress (callers s ! j) \<le> progress (callers (stepCaller remote hostname i s) ! j)"
  by (cases "i = j")
    (auto simp: stepCaller_def Let_def split: pc.splits option.splits sum.splits)

lemma progress_stepCaller_same:
  "i < length (callers s) \<Longrightarrow>
   min 2 (Suc (progress (callers s ! i))) \<le> progress (callers (stepCaller remote hostname i s) ! i)"
  by (auto simp: stepCaller_def Let_def split: pc.splits option.splits sum.splits)

lemma progress_interleave:
  "i < length (callers s) \<Longrightarrow>
   min 2 (progress (callers s ! i) + count_list schedule i)
   \<le> progress (callers (interleave remote hostname schedule s) ! i)"
  unfolding interleave_def
proof (induction schedule arbitrary: s)
  case Nil
  then show ?case by simp
next
  case (Cons j schedule)
  let ?s = "stepCaller remote hostname j s"
  have len: "i < length (callers ?s)"
    using Cons.prems by (simp add: length_stepCaller)
  have ih: "min 2 (progress (callers ?s ! i) + count_list schedule i)
      \<le> progress (callers (fold (stepCaller remote hostname) schedule ?s) ! i)"
    using len by (rule Cons.IH)
  show ?case
  proof (cases "j = i")
    case True
    have "min 2 (Suc (progress (callers s ! i))) \<le> progress (callers ?s ! i)"
      using Cons.prems True progress_stepCaller_same by blast
    then show ?thesis
      using ih True by auto
  next
    case False
    have "progress (callers s ! i) \<le> progress (callers ?s ! i)"
      using Cons.prems by (rule progress_stepCaller_other)
    then show ?thesis
      using ih False by auto
  qed
qed

lemma progress_Done: "2 \<le> progress c \<Longrightarrow> \<exists>websiteId. c = Done websiteId"
  by (cases c) simp_all

text \<open>
  Claim C3, as the code has it. Let the host name be cached already, or let the first
  call to the collector create the website and answer with the host name as its domain.
  Then, however the parts of the \<open>n\<close> callers are interleaved, at most one call to create
  the website is made, every caller that has returned has returned the same
  identifier, and a caller that has run its two parts has returned.
\<close>

theorem C3_concurrent_resolution_agrees:
  assumes "websites h hostname \<noteq> None
      \<or> (\<exists>website. remote (length (createCalls h)) hostname = Inr website
            \<and> Domain website = hostname)"
    and "s = resolveAll remote h hostname n schedule"
  shows "(createCalls (plugin s) = createCalls h
          \<or> createCalls (plugin s) = createCalls h @ [hostname])
         \<and> length (callers s) = n
         \<and> (\<forall>i < n. \<forall>websiteId. callers s ! i = Done websiteId
               \<longrightarrow> websiteId = expectedId remote h hostname)
         \<and> (\<forall>i < n. 2 \<le> count_list schedule i \<longrightarrow> callers s ! i = Done (expectedId remote h hostname))"
proof -
  let ?s0 = "\<lparr>plugin = h, callers = replicate n AtStart\<rparr>"
  have s: "s = interleave remote hostname schedule ?s0"
    using assms(2) by (simp add: resolveAll_def)
  have inv: "agreeing remote h hostname s"
    unfolding s using assms(1) agreeing_start by (rule agreeing_interleave)
  have len: "length (callers s) = n"
    unfolding s by (simp add: length_interleave)
  have a: "createCalls (plugin s) = createCalls h
      \<or> createCalls (plugin s) = createCalls h @ [hostname]"
    using inv by (cases "websites (plugin s) hostname") (auto simp: agreeing_def)
  have c: "\<forall>i < n. \<forall>websiteId. callers s ! i = Done websiteId
      \<longrightarrow> websiteId = expectedId remote h hostname"
  proof (intro allI impI)
    fix i websiteId
    assume "i < n" and d: "callers s ! i = Done websiteId"
    then have "Done websiteId \<in> set (callers s)"
      using len by (metis nth_mem)
    then show "websiteId = expectedId remote h hostname"
      using inv by (auto simp: agreeing_def)
  qed
  have d: "\<forall>i < n. 2 \<le> count_list schedule i
      \<longrightarrow> callers s ! i = Done (expectedId remote h hostname)"
  proof (intro allI impI)
    fix i
    assume i: "i < n" and twice: "2 \<le> count_list schedule i"
    have "min 2 (progress (callers ?s0 ! i) + count_list schedule i)
        \<le> progress (callers (interleave remote hostname schedule ?s0) ! i)"
      using i by (intro progress_interleave) simp
    then have "2 \<le> progress (callers s ! i)"
      using twice i by (simp add: s)
    then obtain websiteId where "callers s ! i = Done websiteId"
      using progress_Done by blast
    then show "callers s ! i = Done (expectedId remote h hostname)"
      using c i by simp
  qed
  show ?thesis
    by (rule conjI [OF a conjI [OF len conjI [OF c d]]])
qed

lemma exampleFeeder_new_example: "websites exampleFeeder ''new.example'' = None"
  by (simp add: exampleFeeder_def New_def exampleConfig_def CreateConfig_def)

theorem C3_concurrent_resolution_agrees_witness:
  "createCalls (plugin (resolveAll exampleRemote exampleFeeder ''new.example'' 3 [0, 1, 2, 1, 0, 2]))
     = [''new.example'']
   \<and> callers (resolveAll exampleRemote exampleFeeder ''new.example'' 3 [0, 1, 2, 1, 0, 2])
     = [Done ''site-2'', Done ''site-2'', Done ''site-2'']"
proof -
  let ?s = "resolveAll exampleRemote exampleFeeder ''new.example'' 3 [0, 1, 2, 1, 0, 2]"
  have ok: "websites exampleFeeder ''new.example'' \<noteq> None
      \<or> (\<exists>website. exampleRemote (length (createCalls exampleFeeder)) ''new.example'' = Inr website
            \<and> Domain website = ''new.example'')"
    by (simp add: exampleRemote_def)
  note c = C3_concurrent_resolution_agrees
      [where remote = exampleRemote and h = exampleFeeder and hostname = "''new.example''"
         and n = 3 and schedule = "[0, 1, 2, 1, 0, 2]" and s = ?s, OF ok refl]
  have e: "expectedId exampleRemote exampleFeeder ''new.example'' = ''site-2''"
    by (simp add: expectedId_def exampleFeeder_new_example exampleRemote_def)
  have len: "length (callers ?s) = 3"
    by (rule c [THEN conjunct2, THEN conjunct1])
  have d: "\<forall>i < 3. 2 \<le> count_list [0, 1, 2, 1, 0, 2] i
      \<longrightarrow> callers ?s ! i = Done (expectedId exampleRemote exampleFeeder ''new.example'')"
    by (rule c [THEN conjunct2, THEN conjunct2, THEN conjunct2])
  have c0: "callers ?s ! 0 = Done ''site-2''"
    using d [rule_format, of 0] e by simp
  have c1: "callers ?s ! 1 = Done ''site-2''"
    using d [rule_format, of 1] e by simp
  have c2: "callers ?s ! 2 = Done ''site-2''"
    using d [rule_format, of 2] e by simp
  obtain x y z where xyz: "callers ?s = [x, y, z]"
    using len by (auto simp: length_Suc_conv numeral_3_eq_3)
  have callers: "callers ?s = [Done ''site-2'', Done ''site-2'', Done ''site-2'']"
    using c0 c1 c2 unfolding xyz by simp
  have "createCalls (plugin ?s) = createCalls exampleFeeder
      \<or> createCalls (plugin ?s) = createCalls exampleFeeder @ [''new.example'']"
    by (rule c [THEN conjunct1])
  then have once: "createCalls (plugin ?s) = [] \<or> createCalls (plugin ?s) = [''new.example'']"
    by (simp add: exampleFeeder_fields)
  have "createCalls (plugin ?s) \<noteq> []"
    by (simp add: resolveAll_def interleave_def stepCaller_def exampleRemote_def
        exampleFeeder_new_example exampleFeeder_fields numeral_3_eq_3 Let_def)
  then have calls: "createCalls (plugin ?s) = [''new.example'']"
    using once by simp
  show ?thesis
    using calls callers by simp
qed

text \<open>
  Claim C3 as it is stated fails when the collector answers the first call with an
  error: the first caller returns the empty identifier and caches nothing, so the second
  caller, even when it starts after the first has returned, calls the collector again
  and returns another identifier.
\<close>

theorem C3_concurrent_resolution_counterexample:
  "createCalls (plugin (resolveAll flakyRemote exampleFeeder ''new.example'' 2 [0, 0, 1, 1]))
     = [''new.example'', ''new.example'']
   \<and> callers (resolveAll flakyRemote exampleFeeder ''new.example'' 2 [0, 0, 1, 1])
     = [Done [], Done ''site-2'']"
  by (simp add: resolveAll_def interleave_def stepCaller_def flakyRemote_def
      exampleFeeder_new_example exampleFeeder_fields error_def numeral_2_eq_2 Let_def)

section \<open>Timing of the dispatch worker\<close>

lemma batchMaxWait_error: "batchMaxWait (error h message) = batchMaxWait h"
  by (simp add: error_def)













end
